theory Spec2Isabelle
  imports Main "HOL-Library.Word"
begin

section \<open>Aurora OS: the FileStorage service (src/services/fileStorage.ts)\<close>

text \<open>
  The service talks to three collaborators that are not part of the repository: the
  Capacitor filesystem bridge (\<open>Filesystem.copy\<close>, \<open>writeFile\<close>, \<open>appendFile\<close>,
  \<open>getUri\<close>, \<open>deleteFile\<close>, \<open>readdir\<close>, \<open>stat\<close>), the Capacitor core
  (\<open>isNativePlatform\<close>, \<open>convertFileSrc\<close>) and the browser (\<open>URL\<close>,
  \<open>FileReader\<close>, \<open>Date.now\<close>, \<open>Math.random\<close>, \<open>console\<close>). They are modelled as
  a record of functions over an arbitrary host state \<open>'h\<close>; a rejected promise or a thrown
  exception is the \<open>Inl\<close> of a sum. Every method of the service returns its result, the
  new host state and the list of calls it made on the bridge, on \<open>URL\<close> and on
  \<open>console\<close>, with its suspensions, in call order.
\<close>

subsection \<open>Data\<close>

type_synonym byte = "8 word"

text \<open>\<open>Directory.Data\<close> and \<open>Directory.External\<close> of the bridge.\<close>

datatype directory = Data | External

text \<open>The cause carried by a rejected bridge call.\<close>

datatype error = Rejected string

type_synonym 'a result = "error + 'a"

text \<open>
  A browser \<open>File\<close>: \<open>name\<close>, \<open>type\<close>, the bytes (\<open>size\<close> is their number), and the
  two fields \<open>path\<close> and \<open>webPath\<close> that the Android wrapper may inject
  (\<open>None\<close> is \<open>undefined\<close>).
\<close>

record File =
  file_name :: string
  file_type :: string
  content :: "byte list"
  file_path :: "string option"
  file_webPath :: "string option"

definition file_size :: "File \<Rightarrow> nat" where
  "file_size f = length (content f)"

text \<open>The interface \<open>SaveFileResult\<close>: \<open>uri\<close>, \<open>size\<close>, \<open>mimeType\<close>.\<close>

record SaveFileResult =
  res_uri :: string
  res_size :: nat
  res_mimeType :: string

text \<open>
  The calls the service makes on its collaborators. The payload of a write is
  \<open>string option\<close> because \<open>blobToBase64\<close> indexes an array and JavaScript yields
  \<open>undefined\<close> out of range.
\<close>

datatype event =
    CreateObjectURL File
  | RevokeObjectURL string
  | FsCopy string string directory "directory option"
  | FsWriteFile string "string option" directory bool
  | FsAppendFile string "string option" directory
  | FsGetUri string directory
  | FsDeleteFile string directory
  | FsReaddir string directory
  | FsStat string directory
  | CapConvertFileSrc string
  | ConsoleWarn string
  | ConsoleError string error
  | Yield

text \<open>
  The host: each bridge call may reject and may change the host state.
  \<open>mathRandom36\<close> is \<open>Math.random().toString(36)\<close>, taken as a string because the
  service only ever looks at that rendering. \<open>fileReaderError\<close> says whether a
  \<open>FileReader\<close> that is asked for a blob fires \<open>onerror\<close>, and with what; when it
  does not, \<open>onload\<close> fires and \<open>reader.result\<close> is the data URL of the blob.
\<close>

record 'h bridge =
  isNativePlatform :: bool
  capConvertFileSrc :: "string \<Rightarrow> string"
  createObjectURL :: "File \<Rightarrow> 'h \<Rightarrow> string \<times> 'h"
  revokeObjectURL :: "string \<Rightarrow> 'h \<Rightarrow> 'h"
  fileReaderError :: "byte list \<Rightarrow> 'h \<Rightarrow> error option \<times> 'h"
  dateNow :: "'h \<Rightarrow> nat \<times> 'h"
  mathRandom36 :: "'h \<Rightarrow> string \<times> 'h"
  fsCopy :: "string \<Rightarrow> string \<Rightarrow> directory \<Rightarrow> directory option \<Rightarrow> 'h \<Rightarrow> unit result \<times> 'h"
  fsWriteFile :: "string \<Rightarrow> string option \<Rightarrow> directory \<Rightarrow> bool \<Rightarrow> 'h \<Rightarrow> unit result \<times> 'h"
  fsAppendFile :: "string \<Rightarrow> string option \<Rightarrow> directory \<Rightarrow> 'h \<Rightarrow> unit result \<times> 'h"
  fsGetUri :: "string \<Rightarrow> directory \<Rightarrow> 'h \<Rightarrow> string result \<times> 'h"
  fsDeleteFile :: "string \<Rightarrow> directory \<Rightarrow> 'h \<Rightarrow> unit result \<times> 'h"
  fsReaddir :: "string \<Rightarrow> directory \<Rightarrow> 'h \<Rightarrow> string list result \<times> 'h"
  fsStat :: "string \<Rightarrow> directory \<Rightarrow> 'h \<Rightarrow> nat result \<times> 'h"

subsection \<open>JavaScript string primitives\<close>

text \<open>
  Strings are lists of 8-bit characters. The service cuts them only at the ASCII
  characters \<open>.\<close>, \<open>,\<close> and \<open>/\<close> and at fixed offsets of ASCII text, where bytes
  and UTF-16 code units agree.
\<close>

text \<open>\<open>s.startsWith(p)\<close>.\<close>

definition startsWith :: "string \<Rightarrow> string \<Rightarrow> bool" where
  "startsWith s p = (take (length p) s = p)"

text \<open>\<open>s.substring(i, j)\<close> for \<open>i \<le> j\<close>: both ends are clamped to the length.\<close>

definition substring :: "string \<Rightarrow> nat \<Rightarrow> nat \<Rightarrow> string" where
  "substring s i j = take (j - i) (drop i s)"

text \<open>\<open>s.split(sep)\<close> for a one-character separator: never empty.\<close>

fun split :: "char \<Rightarrow> string \<Rightarrow> string list" where
  "split sep [] = [[]]"
| "split sep (c # cs) =
     (if c = sep then [] # split sep cs
      else (case split sep cs of
              [] \<Rightarrow> [[c]]
            | seg # segs \<Rightarrow> (c # seg) # segs))"

text \<open>\<open>xs[i]\<close>: \<open>undefined\<close> out of range.\<close>

fun index :: "'a list \<Rightarrow> nat \<Rightarrow> 'a option" where
  "index [] i = None"
| "index (x # xs) 0 = Some x"
| "index (x # xs) (Suc i) = index xs i"

text \<open>\<open>xs.pop()\<close>, the value returned: \<open>undefined\<close> on an empty array.\<close>

definition pop :: "'a list \<Rightarrow> 'a option" where
  "pop xs = (case rev xs of [] \<Rightarrow> None | x # _ \<Rightarrow> Some x)"

text \<open>Truthiness of a possibly undefined string: \<open>undefined\<close> and \<open>""\<close> are falsy.\<close>

definition truthy :: "string option \<Rightarrow> bool" where
  "truthy v = (case v of None \<Rightarrow> False | Some s \<Rightarrow> s \<noteq> [])"

text \<open>\<open>a || b\<close> on possibly undefined strings, and \<open>a || 'literal'\<close>.\<close>

definition or_else :: "string option \<Rightarrow> string option \<Rightarrow> string option" where
  "or_else a b = (if truthy a then a else b)"

definition or_literal :: "string option \<Rightarrow> string \<Rightarrow> string" where
  "or_literal a d = (case a of None \<Rightarrow> d | Some s \<Rightarrow> if s \<noteq> [] then s else d)"

text \<open>\<open>blob.slice(start, end)\<close> for \<open>start \<le> end\<close>: both ends are clamped to the size.\<close>

definition slice_blob :: "byte list \<Rightarrow> nat \<Rightarrow> nat \<Rightarrow> byte list" where
  "slice_blob bs start end = take (end - start) (drop start bs)"

text \<open>The decimal rendering of a non-negative integer, as a template literal prints it.\<close>

definition digit :: "nat \<Rightarrow> char" where
  "digit d = ''0123456789'' ! (d mod 10)"

function toString10 :: "nat \<Rightarrow> string" where
  "toString10 n = (if n < 10 then [digit n] else toString10 (n div 10) @ [digit (n mod 10)])"
  by pat_completeness auto
termination
  by (relation "measure id") auto

declare toString10.simps [simp del]

subsection \<open>Base64, as \<open>FileReader.readAsDataURL\<close> writes it and the bridge reads it\<close>

definition base64_alphabet :: string where
  "base64_alphabet = ''ABCDEFGHIJKLMNOPQRSTUVWXYZabcdefghijklmnopqrstuvwxyz0123456789+/''"

definition sextet_char :: "nat \<Rightarrow> char" where
  "sextet_char n = base64_alphabet ! (n mod 64)"

fun base64_encode :: "byte list \<Rightarrow> string" where
  "base64_encode [] = []"
| "base64_encode [a] =
     (let n = unat a * 65536
      in [sextet_char (n div 262144), sextet_char (n div 4096), CHR ''='', CHR ''=''])"
| "base64_encode [a, b] =
     (let n = unat a * 65536 + unat b * 256
      in [sextet_char (n div 262144), sextet_char (n div 4096), sextet_char (n div 64),
          CHR ''=''])"
| "base64_encode (a # b # c # rest) =
     (let n = unat a * 65536 + unat b * 256 + unat c
      in [sextet_char (n div 262144), sextet_char (n div 4096), sextet_char (n div 64),
          sextet_char n] @ base64_encode rest)"

fun find_index :: "char \<Rightarrow> string \<Rightarrow> nat option" where
  "find_index c [] = None"
| "find_index c (x # xs) = (if c = x then Some 0 else map_option Suc (find_index c xs))"

definition char_sextet :: "char \<Rightarrow> nat option" where
  "char_sextet c = find_index c base64_alphabet"

fun base64_decode :: "string \<Rightarrow> byte list option" where
  "base64_decode [] = Some []"
| "base64_decode (c1 # c2 # c3 # c4 # rest) =
     (case (char_sextet c1, char_sextet c2) of
        (Some s1, Some s2) \<Rightarrow>
          if c3 = CHR ''='' \<and> c4 = CHR ''='' then
            (if rest = [] then Some [of_nat ((s1 * 64 + s2) div 16)] else None)
          else (case char_sextet c3 of
                  None \<Rightarrow> None
                | Some s3 \<Rightarrow>
                    if c4 = CHR ''='' then
                      (if rest = [] then
                         (let n = (s1 * 64 + s2) * 64 + s3
                          in Some [of_nat (n div 1024), of_nat (n div 4)])
                       else None)
                    else (case char_sextet c4 of
                            None \<Rightarrow> None
                          | Some s4 \<Rightarrow>
                              (let n = ((s1 * 64 + s2) * 64 + s3) * 64 + s4
                               in map_option
                                    (\<lambda>bs. of_nat (n div 65536) # of_nat (n div 256) # of_nat n # bs)
                                    (base64_decode rest))))
      | _ \<Rightarrow> None)"
| "base64_decode _ = None"

text \<open>
  \<open>reader.readAsDataURL(blob)\<close> for a blob without a media type, which is what
  \<open>file.slice(a, b)\<close> returns.
\<close>

definition readAsDataURL :: "byte list \<Rightarrow> string" where
  "readAsDataURL blob = ''data:application/octet-stream;base64,'' @ base64_encode blob"


subsection \<open>The service\<close>

definition FILE_SIZE_THRESHOLD :: int where
  "FILE_SIZE_THRESHOLD = 1 * 1024 * 1024"

definition isSupportedCapacitor :: "'h bridge \<Rightarrow> bool" where
  "isSupportedCapacitor b = isNativePlatform b"

definition getCategory :: "string \<Rightarrow> string" where
  "getCategory mimeType =
     (if startsWith mimeType ''video/'' then ''videos''
      else if startsWith mimeType ''audio/'' then ''audio''
      else if startsWith mimeType ''image/'' then ''images''
      else ''documents'')"

definition generateFilename :: "'h bridge \<Rightarrow> string \<Rightarrow> 'h \<Rightarrow> string \<times> 'h" where
  "generateFilename b originalName h =
     (let (timestamp, h1) = dateNow b h;
          (r, h2) = mathRandom36 b h1;
          random = substring r 2 8;
          ext = or_literal (pop (split (CHR ''.'') originalName)) ''bin''
      in (toString10 timestamp @ ''_'' @ random @ ''.'' @ ext, h2))"

text \<open>
  \<open>blobToBase64\<close>: the promise rejects when the reader fires \<open>onerror\<close>; otherwise
  it resolves with the text after the first comma of the data URL.
\<close>

definition blobToBase64 :: "'h bridge \<Rightarrow> byte list \<Rightarrow> 'h \<Rightarrow> string option result \<times> 'h" where
  "blobToBase64 b blob h =
     (case fileReaderError b blob h of
        (Some e, h1) \<Rightarrow> (Inl e, h1)
      | (None, h1) \<Rightarrow> (Inr (index (split (CHR '','') (readAsDataURL blob)) 1), h1))"

definition chunkSize :: nat where
  "chunkSize = 1024 * 1024"

text \<open>
  One turn of the loop of \<open>saveFileChunked\<close> up to the write: the call made, its
  outcome, and the new value of \<open>isFirstChunk\<close>.
\<close>

definition writeChunk ::
  "'h bridge \<Rightarrow> string \<Rightarrow> string option \<Rightarrow> bool \<Rightarrow> 'h \<Rightarrow> unit result \<times> 'h \<times> event \<times> bool" where
  "writeChunk b p base64 isFirstChunk h =
     (if isFirstChunk then
        (let (r, h1) = fsWriteFile b p base64 Data True h
         in (r, h1, FsWriteFile p base64 Data True, False))
      else
        (let (r, h1) = fsAppendFile b p base64 Data h
         in (r, h1, FsAppendFile p base64 Data, isFirstChunk)))"

text \<open>
  The \<open>while (offset < file.size)\<close> loop. A rejected read or a rejected write leaves
  the loop with the error; a completed write is followed by \<open>offset += chunkSize\<close> and
  the \<open>setTimeout(r, 0)\<close> suspension.
\<close>

function saveFileChunked_loop ::
  "'h bridge \<Rightarrow> File \<Rightarrow> string \<Rightarrow> nat \<Rightarrow> bool \<Rightarrow> 'h \<Rightarrow> unit result \<times> 'h \<times> event list" where
  "saveFileChunked_loop b file p offset isFirstChunk h =
     (if offset < file_size file then
        (case blobToBase64 b (slice_blob (content file) offset (offset + chunkSize)) h of
           (Inl e, h0) \<Rightarrow> (Inl e, h0, [])
         | (Inr base64, h0) \<Rightarrow>
             (case writeChunk b p base64 isFirstChunk h0 of
                (Inl e, h1, ev, isFirstChunk1) \<Rightarrow> (Inl e, h1, [ev])
              | (Inr _, h1, ev, isFirstChunk1) \<Rightarrow>
                  (case saveFileChunked_loop b file p (offset + chunkSize) isFirstChunk1 h1 of
                     (r, h2, t) \<Rightarrow> (r, h2, ev # Yield # t))))
      else (Inr (), h, []))"
  by pat_completeness auto
termination
  by (relation "measure (\<lambda>(b, file, p, offset, isFirstChunk, h). file_size file - offset)")
     (auto simp: chunkSize_def)

declare saveFileChunked_loop.simps [simp del]

definition saveFileChunked ::
  "'h bridge \<Rightarrow> File \<Rightarrow> string \<Rightarrow> 'h \<Rightarrow> unit result \<times> 'h \<times> event list" where
  "saveFileChunked b file p h = saveFileChunked_loop b file p 0 True h"

text \<open>
  The native copy of \<open>saveFile\<close>: \<open>Filesystem.copy({..., directory: External})\<close>
  with its \<open>.catch\<close> handler, which copies again without \<open>directory\<close>.
\<close>

definition saveFile_copy ::
  "'h bridge \<Rightarrow> string \<Rightarrow> string \<Rightarrow> 'h \<Rightarrow> unit result \<times> 'h \<times> event list" where
  "saveFile_copy b sourceUri p h =
     (case fsCopy b sourceUri p Data (Some External) h of
        (Inr _, h1) \<Rightarrow> (Inr (), h1, [FsCopy sourceUri p Data (Some External)])
      | (Inl _, h1) \<Rightarrow>
          (case fsCopy b sourceUri p Data None h1 of
             (r, h2) \<Rightarrow>
               (r, h2, [FsCopy sourceUri p Data (Some External), FsCopy sourceUri p Data None])))"

text \<open>The body of the \<open>try\<close> block of \<open>saveFile\<close>.\<close>

definition saveFile_try ::
  "'h bridge \<Rightarrow> File \<Rightarrow> 'h \<Rightarrow> SaveFileResult result \<times> 'h \<times> event list" where
  "saveFile_try b file h =
     (let category = getCategory (file_type file);
          (filename, h1) = generateFilename b (file_name file) h;
          p = ''aurora-files/'' @ category @ ''/'' @ filename;
          sourceUri = or_else (file_path file) (file_webPath file);
          chunked = (case saveFileChunked b file p h1 of
                       (r, h2, t) \<Rightarrow>
                         (r, h2,
                          ConsoleWarn ''No native path found. Using memory-safe chunked write.'' # t))
      in case (case sourceUri of
                 None \<Rightarrow> chunked
               | Some s \<Rightarrow> if s \<noteq> [] then saveFile_copy b s p h1 else chunked) of
           (Inl e, h2, t) \<Rightarrow> (Inl e, h2, t)
         | (Inr _, h2, t) \<Rightarrow>
             (case fsGetUri b p Data h2 of
                (Inl e, h3) \<Rightarrow> (Inl e, h3, t @ [FsGetUri p Data])
              | (Inr u, h3) \<Rightarrow>
                  (Inr \<lparr>res_uri = u, res_size = file_size file, res_mimeType = file_type file\<rparr>, h3,
                   t @ [FsGetUri p Data])))"

definition saveFile ::
  "'h bridge \<Rightarrow> File \<Rightarrow> 'h \<Rightarrow> SaveFileResult result \<times> 'h \<times> event list" where
  "saveFile b file h =
     (if \<not> isSupportedCapacitor b then
        (case createObjectURL b file h of
           (blobUrl, h1) \<Rightarrow>
             (Inr \<lparr>res_uri = blobUrl, res_size = file_size file, res_mimeType = file_type file\<rparr>, h1,
              [CreateObjectURL file]))
      else
        (case saveFile_try b file h of
           (Inl e, h1, t) \<Rightarrow>
             (Inl e, h1, t @ [ConsoleError ''Failed to save file to native storage:'' e])
         | (Inr v, h1, t) \<Rightarrow> (Inr v, h1, t)))"

definition shouldUseNativeStorage :: "'h bridge \<Rightarrow> int \<Rightarrow> bool" where
  "shouldUseNativeStorage b fileSize = (isSupportedCapacitor b \<and> fileSize \<ge> FILE_SIZE_THRESHOLD)"

text \<open>
  \<open>uri.match(/aurora-files\/.+/)\<close>: the leftmost place where \<open>aurora-files/\<close> is
  followed by a character that is not a line terminator; the match runs up to the next
  line terminator. Characters are 8-bit here, so the line terminators are LF and CR; the
  Unicode separators U+2028 and U+2029 are not single characters of this model.
\<close>

definition lineTerminator :: "char \<Rightarrow> bool" where
  "lineTerminator c = (c = CHR 0x0A \<or> c = CHR 0x0D)"

fun match_aurora_files :: "string \<Rightarrow> string option" where
  "match_aurora_files [] = None"
| "match_aurora_files (c # cs) =
     (if startsWith (c # cs) ''aurora-files/'' \<and>
         (case drop 13 (c # cs) of [] \<Rightarrow> False | d # _ \<Rightarrow> \<not> lineTerminator d)
      then Some (''aurora-files/'' @ takeWhile (\<lambda>d. \<not> lineTerminator d) (drop 13 (c # cs)))
      else match_aurora_files cs)"

text \<open>The body of the \<open>try\<close> block of \<open>deleteFile\<close>.\<close>

definition deleteFile_try :: "'h bridge \<Rightarrow> string \<Rightarrow> 'h \<Rightarrow> unit result \<times> 'h \<times> event list" where
  "deleteFile_try b u h =
     (case match_aurora_files u of
        Some m \<Rightarrow>
          (case fsDeleteFile b m Data h of (r, h1) \<Rightarrow> (r, h1, [FsDeleteFile m Data]))
      | None \<Rightarrow> (Inr (), h, []))"

definition deleteFile :: "'h bridge \<Rightarrow> string \<Rightarrow> 'h \<Rightarrow> unit result \<times> 'h \<times> event list" where
  "deleteFile b u h =
     (if \<not> isSupportedCapacitor b then
        (if startsWith u ''blob:'' then (Inr (), revokeObjectURL b u h, [RevokeObjectURL u])
         else (Inr (), h, []))
      else
        (case deleteFile_try b u h of
           (Inl e, h1, t) \<Rightarrow> (Inr (), h1, t @ [ConsoleError ''Failed to delete file:'' e])
         | (Inr _, h1, t) \<Rightarrow> (Inr (), h1, t)))"

definition convertFileSrc :: "'h bridge \<Rightarrow> string \<Rightarrow> string \<times> event list" where
  "convertFileSrc b u =
     (if \<not> isSupportedCapacitor b then (u, [])
      else (capConvertFileSrc b u, [CapConvertFileSrc u]))"

text \<open>The result of \<open>getNativeStorageStats\<close>: \<open>count\<close> and \<open>size\<close>.\<close>

record stats =
  stats_count :: nat
  stats_size :: nat

text \<open>
  The inner loop of \<open>getNativeStorageStats\<close>: \<open>stat\<close> each listed entry and add its
  size; a rejected \<open>stat\<close> is caught and the loop goes on.
\<close>

fun stats_files ::
  "'h bridge \<Rightarrow> string \<Rightarrow> string list \<Rightarrow> nat \<Rightarrow> 'h \<Rightarrow> nat \<times> 'h \<times> event list" where
  "stats_files b cat [] totalSize h = (totalSize, h, [])"
| "stats_files b cat (name # files) totalSize h =
     (let p = ''aurora-files/'' @ cat @ ''/'' @ name
      in case fsStat b p Data h of
           (r, h1) \<Rightarrow>
             (case stats_files b cat files
                     (case r of Inr sz \<Rightarrow> totalSize + sz | Inl _ \<Rightarrow> totalSize) h1 of
                (s, h2, t) \<Rightarrow> (s, h2, FsStat p Data # t)))"

text \<open>
  The outer loop: \<open>readdir\<close> of each category; \<open>totalCount\<close> grows by the number of
  entries listed, before any of them is looked at; a rejected \<open>readdir\<close> is caught
  and the loop goes on with the next category.
\<close>

fun stats_categories ::
  "'h bridge \<Rightarrow> string list \<Rightarrow> nat \<Rightarrow> nat \<Rightarrow> 'h \<Rightarrow> stats \<times> 'h \<times> event list" where
  "stats_categories b [] totalCount totalSize h =
     (\<lparr>stats_count = totalCount, stats_size = totalSize\<rparr>, h, [])"
| "stats_categories b (cat # cats) totalCount totalSize h =
     (let d = ''aurora-files/'' @ cat
      in case fsReaddir b d Data h of
           (Inl _, h1) \<Rightarrow>
             (case stats_categories b cats totalCount totalSize h1 of
                (s, h2, t) \<Rightarrow> (s, h2, FsReaddir d Data # t))
         | (Inr files, h1) \<Rightarrow>
             (case stats_files b cat files totalSize h1 of
                (totalSize1, h2, t1) \<Rightarrow>
                  (case stats_categories b cats (totalCount + length files) totalSize1 h2 of
                     (s, h3, t2) \<Rightarrow> (s, h3, FsReaddir d Data # t1 @ t2))))"

definition categories :: "string list" where
  "categories = [''videos'', ''audio'', ''images'', ''documents'']"

definition getNativeStorageStats :: "'h bridge \<Rightarrow> 'h \<Rightarrow> stats result \<times> 'h \<times> event list" where
  "getNativeStorageStats b h =
     (if \<not> isSupportedCapacitor b then (Inr \<lparr>stats_count = 0, stats_size = 0\<rparr>, h, [])
      else (case stats_categories b categories 0 0 h of (s, h1, t) \<Rightarrow> (Inr s, h1, t)))"


text \<open>An element of the array returned by \<open>getNativeStorageFiles\<close>.\<close>

record StorageEntry =
  entry_name :: string
  entry_path :: string
  entry_category :: string
  entry_size :: nat

text \<open>
  The nested iteration of \<open>getNativeStorageFiles\<close>: an entry is pushed only after its
  \<open>stat\<close> has succeeded.
\<close>

fun files_files ::
  "'h bridge \<Rightarrow> string \<Rightarrow> string list \<Rightarrow> StorageEntry list \<Rightarrow> 'h
     \<Rightarrow> StorageEntry list \<times> 'h \<times> event list" where
  "files_files b cat [] files h = (files, h, [])"
| "files_files b cat (name # rest) files h =
     (let p = ''aurora-files/'' @ cat @ ''/'' @ name
      in case fsStat b p Data h of
           (r, h1) \<Rightarrow>
             (case files_files b cat rest
                     (case r of
                        Inr sz \<Rightarrow>
                          files @ [\<lparr>entry_name = name, entry_path = p, entry_category = cat,
                                    entry_size = sz\<rparr>]
                      | Inl _ \<Rightarrow> files) h1 of
                (fs, h2, t) \<Rightarrow> (fs, h2, FsStat p Data # t)))"

fun files_categories ::
  "'h bridge \<Rightarrow> string list \<Rightarrow> StorageEntry list \<Rightarrow> 'h
     \<Rightarrow> StorageEntry list \<times> 'h \<times> event list" where
  "files_categories b [] files h = (files, h, [])"
| "files_categories b (cat # cats) files h =
     (let d = ''aurora-files/'' @ cat
      in case fsReaddir b d Data h of
           (Inl _, h1) \<Rightarrow>
             (case files_categories b cats files h1 of
                (fs, h2, t) \<Rightarrow> (fs, h2, FsReaddir d Data # t))
         | (Inr listed, h1) \<Rightarrow>
             (case files_files b cat listed files h1 of
                (files1, h2, t1) \<Rightarrow>
                  (case files_categories b cats files1 h2 of
                     (fs, h3, t2) \<Rightarrow> (fs, h3, FsReaddir d Data # t1 @ t2))))"

definition getNativeStorageFiles ::
  "'h bridge \<Rightarrow> 'h \<Rightarrow> StorageEntry list result \<times> 'h \<times> event list" where
  "getNativeStorageFiles b h =
     (if \<not> isSupportedCapacitor b then (Inr [], h, [])
      else (case files_categories b categories [] h of (fs, h1, t) \<Rightarrow> (Inr fs, h1, t)))"

subsection \<open>A reference host\<close>

text \<open>
  An in-memory host on which the service can be run: files are kept by absolute path,
  the clock ticks at every reading, and the payload of a write is decoded from base64 as
  the native side of the bridge does.
\<close>

type_synonym memfs = "(string \<times> byte list) list \<times> nat"

definition root :: "directory option \<Rightarrow> string" where
  "root d = (case d of None \<Rightarrow> [] | Some Data \<Rightarrow> ''/data/'' | Some External \<Rightarrow> ''/external/'')"

definition mem_put :: "string \<Rightarrow> byte list \<Rightarrow> (string \<times> byte list) list \<Rightarrow> (string \<times> byte list) list" where
  "mem_put k v fs = filter (\<lambda>e. fst e \<noteq> k) fs @ [(k, v)]"

definition mem_copy ::
  "string \<Rightarrow> string \<Rightarrow> directory \<Rightarrow> directory option \<Rightarrow> memfs \<Rightarrow> unit result \<times> memfs" where
  "mem_copy src dst toDir dir s =
     (case map_of (fst s) (root dir @ src) of
        None \<Rightarrow> (Inl (Rejected ''File does not exist''), s)
      | Some bs \<Rightarrow> (Inr (), (mem_put (root (Some toDir) @ dst) bs (fst s), snd s)))"

definition mem_writeFile ::
  "string \<Rightarrow> string option \<Rightarrow> directory \<Rightarrow> bool \<Rightarrow> memfs \<Rightarrow> unit result \<times> memfs" where
  "mem_writeFile p d dir recursive s =
     (case d of
        None \<Rightarrow> (Inl (Rejected ''data must be provided''), s)
      | Some text \<Rightarrow>
          (case base64_decode text of
             None \<Rightarrow> (Inl (Rejected ''Invalid base64''), s)
           | Some bs \<Rightarrow> (Inr (), (mem_put (root (Some dir) @ p) bs (fst s), snd s))))"

definition mem_appendFile ::
  "string \<Rightarrow> string option \<Rightarrow> directory \<Rightarrow> memfs \<Rightarrow> unit result \<times> memfs" where
  "mem_appendFile p d dir s =
     (case d of
        None \<Rightarrow> (Inl (Rejected ''data must be provided''), s)
      | Some text \<Rightarrow>
          (case (base64_decode text, map_of (fst s) (root (Some dir) @ p)) of
             (Some bs, Some old) \<Rightarrow>
               (Inr (), (mem_put (root (Some dir) @ p) (old @ bs) (fst s), snd s))
           | _ \<Rightarrow> (Inl (Rejected ''Unable to append''), s)))"

definition mem_getUri :: "string \<Rightarrow> directory \<Rightarrow> memfs \<Rightarrow> string result \<times> memfs" where
  "mem_getUri p dir s = (Inr (''file://'' @ root (Some dir) @ p), s)"

definition mem_deleteFile :: "string \<Rightarrow> directory \<Rightarrow> memfs \<Rightarrow> unit result \<times> memfs" where
  "mem_deleteFile p dir s =
     (case map_of (fst s) (root (Some dir) @ p) of
        None \<Rightarrow> (Inl (Rejected ''File does not exist''), s)
      | Some _ \<Rightarrow> (Inr (), (filter (\<lambda>e. fst e \<noteq> root (Some dir) @ p) (fst s), snd s)))"

definition mem_readdir :: "string \<Rightarrow> directory \<Rightarrow> memfs \<Rightarrow> string list result \<times> memfs" where
  "mem_readdir p dir s =
     (let pre = root (Some dir) @ p @ ''/'';
          names = map (\<lambda>e. drop (length pre) (fst e)) (filter (\<lambda>e. startsWith (fst e) pre) (fst s))
      in if names = [] then (Inl (Rejected ''Directory does not exist''), s) else (Inr names, s))"

definition mem_stat :: "string \<Rightarrow> directory \<Rightarrow> memfs \<Rightarrow> nat result \<times> memfs" where
  "mem_stat p dir s =
     (case map_of (fst s) (root (Some dir) @ p) of
        None \<Rightarrow> (Inl (Rejected ''File does not exist''), s)
      | Some bs \<Rightarrow> (Inr (length bs), s))"

definition memfs :: "bool \<Rightarrow> memfs bridge" where
  "memfs native =
     \<lparr>isNativePlatform = native,
      capConvertFileSrc = (\<lambda>u. ''https://localhost/_capacitor_file_'' @ drop 7 u),
      createObjectURL = (\<lambda>f s. (''blob:aurora/'' @ toString10 (snd s), (fst s, Suc (snd s)))),
      revokeObjectURL = (\<lambda>u s. s),
      fileReaderError = (\<lambda>blob s. (None, s)),
      dateNow = (\<lambda>s. (1700000000000 + snd s, (fst s, Suc (snd s)))),
      mathRandom36 = (\<lambda>s. (''0.k3x9q2ab7c'', s)),
      fsCopy = mem_copy,
      fsWriteFile = mem_writeFile,
      fsAppendFile = mem_appendFile,
      fsGetUri = mem_getUri,
      fsDeleteFile = mem_deleteFile,
      fsReaddir = mem_readdir,
      fsStat = mem_stat\<rparr>"


subsection \<open>Vocabulary of the properties\<close>

text \<open>The chunk-write calls: \<open>writeFile\<close> and \<open>appendFile\<close>.\<close>

fun is_chunk_write :: "event \<Rightarrow> bool" where
  "is_chunk_write (FsWriteFile p d dir r) = True"
| "is_chunk_write (FsAppendFile p d dir) = True"
| "is_chunk_write e = False"

text \<open>Every call on the filesystem bridge.\<close>

fun is_fs_call :: "event \<Rightarrow> bool" where
  "is_fs_call (FsCopy src dst toDir dir) = True"
| "is_fs_call (FsWriteFile p d dir r) = True"
| "is_fs_call (FsAppendFile p d dir) = True"
| "is_fs_call (FsGetUri p dir) = True"
| "is_fs_call (FsDeleteFile p dir) = True"
| "is_fs_call (FsReaddir p dir) = True"
| "is_fs_call (FsStat p dir) = True"
| "is_fs_call e = False"

text \<open>The bytes a chunk-write call carries, once its payload is decoded from base64.\<close>

fun payload :: "event \<Rightarrow> string option" where
  "payload (FsWriteFile p d dir r) = d"
| "payload (FsAppendFile p d dir) = d"
| "payload e = None"

definition decoded :: "event \<Rightarrow> byte list" where
  "decoded e =
     (case payload e of
        None \<Rightarrow> []
      | Some text \<Rightarrow> (case base64_decode text of None \<Rightarrow> [] | Some bs \<Rightarrow> bs))"

text \<open>
  The call that carries chunk \<open>i\<close> of the bytes \<open>bs\<close> to the path \<open>p\<close>: a
  \<open>writeFile\<close> with \<open>recursive: true\<close> when it creates the file, an \<open>appendFile\<close>
  otherwise.
\<close>

definition chunk_call :: "string \<Rightarrow> byte list \<Rightarrow> bool \<Rightarrow> nat \<Rightarrow> event" where
  "chunk_call p bs create i =
     (if create
      then FsWriteFile p (Some (base64_encode (slice_blob bs (i * chunkSize) (i * chunkSize + chunkSize))))
             Data True
      else FsAppendFile p (Some (base64_encode (slice_blob bs (i * chunkSize) (i * chunkSize + chunkSize))))
             Data)"

text \<open>The number of chunks of a file of \<open>S\<close> bytes: \<open>S / chunkSize\<close>, rounded up.\<close>

definition chunk_count :: "nat \<Rightarrow> nat" where
  "chunk_count S = (S + chunkSize - 1) div chunkSize"

text \<open>
  Between any two consecutive chunk writes of a trace there is a suspension:
  \<open>pending\<close> says that a chunk write has been seen and no suspension since.
\<close>

fun yields_between_from :: "bool \<Rightarrow> event list \<Rightarrow> bool" where
  "yields_between_from pending [] = True"
| "yields_between_from pending (e # t) =
     (if is_chunk_write e then \<not> pending \<and> yields_between_from True t
      else if e = Yield then yields_between_from False t
      else yields_between_from pending t)"

definition yields_between :: "event list \<Rightarrow> bool" where
  "yields_between t = yields_between_from False t"

text \<open>The local \<open>sourceUri\<close> and the local \<open>path\<close> of \<open>saveFile\<close>.\<close>

definition sourceUri :: "File \<Rightarrow> string option" where
  "sourceUri file = or_else (file_path file) (file_webPath file)"

definition target_path :: "'h bridge \<Rightarrow> File \<Rightarrow> 'h \<Rightarrow> string" where
  "target_path b file h =
     ''aurora-files/'' @ getCategory (file_type file) @ ''/'' @
     fst (generateFilename b (file_name file) h)"




text \<open>The two messages of \<open>saveFile\<close>.\<close>

definition chunked_warning :: string where
  "chunked_warning = ''No native path found. Using memory-safe chunked write.''"

definition save_error :: string where
  "save_error = ''Failed to save file to native storage:''"

text \<open>The text after the last dot of a name (the whole name when it has no dot).\<close>

definition after_last_dot :: "string \<Rightarrow> string" where
  "after_last_dot name = rev (takeWhile (\<lambda>c. c \<noteq> CHR ''.'') (rev name))"








subsection \<open>Sample inputs\<close>


definition empty_file :: File where
  "empty_file = \<lparr>file_name = ''notes.txt'', file_type = ''text/plain'', content = [],
     file_path = None, file_webPath = Some []\<rparr>"

definition clip_file :: File where
  "clip_file = \<lparr>file_name = ''clip.mp4'', file_type = ''video/mp4'', content = [0, 1],
     file_path = Some ''/tmp/missing.mp4'', file_webPath = None\<rparr>"


text \<open>A file of two full chunks and one byte.\<close>

definition big_file :: File where
  "big_file = \<lparr>file_name = ''big.bin'', file_type = ''application/octet-stream'',
     content = replicate 2097153 7, file_path = None, file_webPath = None\<rparr>"



text \<open>A host whose reader serves one blob and fails from then on.\<close>

definition flaky_host :: "memfs bridge" where
  "flaky_host =
     (memfs True)\<lparr>fileReaderError :=
        (\<lambda>blob s. if snd s = 0 then (None, (fst s, 1))
                   else (Some (Rejected ''NotReadableError''), s))\<rparr>"

text \<open>A host that accepts every write and keeps nothing.\<close>

definition sink_host :: "memfs bridge" where
  "sink_host =
     (memfs True)\<lparr>fsWriteFile := (\<lambda>p d dir r s. (Inr (), s)),
                   fsAppendFile := (\<lambda>p d dir s. (Inr (), s))\<rparr>"


text \<open>
  A host on which one listed entry cannot be looked at any more: \<open>readdir\<close> lists
  \<open>gone.mp4\<close>, \<open>stat\<close> rejects it.
\<close>

definition stale_host :: "memfs bridge" where
  "stale_host =
     (memfs True)\<lparr>fsStat :=
        (\<lambda>p d s. if p = ''aurora-files/videos/gone.mp4''
                  then (Inl (Rejected ''File does not exist''), s)
                  else mem_stat p d s)\<rparr>"

definition stale_state :: memfs where
  "stale_state =
     ([(''/data/aurora-files/videos/a.mp4'', [1, 2, 3, 4, 5]),
       (''/data/aurora-files/videos/gone.mp4'', [9, 9, 9])], 0)"

section \<open>Properties\<close>

subsection \<open>Base64 is read back as it was written\<close>

lemma find_index_nth:
  "distinct xs \<Longrightarrow> n < length xs \<Longrightarrow> find_index (xs ! n) xs = Some n"
proof (induction xs arbitrary: n)
  case Nil
  then show ?case by simp
next
  case (Cons x xs)
  show ?case
  proof (cases n)
    case 0
    then show ?thesis by simp
  next
    case (Suc m)
    with Cons.prems have "xs ! m \<in> set xs" "x \<notin> set xs" "distinct xs" "m < length xs"
      by auto
    then show ?thesis using Cons.IH [of m] Suc by auto
  qed
qed

lemma base64_alphabet_length: "length base64_alphabet = 64"
  by (simp add: base64_alphabet_def)

lemma base64_alphabet_distinct: "distinct base64_alphabet"
  by (simp add: base64_alphabet_def)

lemma char_sextet_sextet_char: "char_sextet (sextet_char n) = Some (n mod 64)"
  unfolding char_sextet_def sextet_char_def
  by (rule find_index_nth) (simp_all add: base64_alphabet_distinct base64_alphabet_length)

lemma pad_not_in_alphabet: "CHR ''='' \<notin> set base64_alphabet"
  by (simp add: base64_alphabet_def)

lemma sextet_char_not_pad: "sextet_char n \<noteq> CHR ''=''"
proof -
  have "sextet_char n \<in> set base64_alphabet"
    unfolding sextet_char_def by (rule nth_mem) (simp add: base64_alphabet_length)
  with pad_not_in_alphabet show ?thesis by metis
qed

lemma decode_pad2:
  "base64_decode [sextet_char x, sextet_char y, CHR ''='', CHR ''=''] =
     Some [of_nat ((x mod 64 * 64 + y mod 64) div 16)]"
  by (simp add: char_sextet_sextet_char)

lemma decode_pad1:
  "base64_decode [sextet_char x, sextet_char y, sextet_char z, CHR ''=''] =
     Some [of_nat (((x mod 64 * 64 + y mod 64) * 64 + z mod 64) div 1024),
           of_nat (((x mod 64 * 64 + y mod 64) * 64 + z mod 64) div 4)]"
  by (simp add: char_sextet_sextet_char sextet_char_not_pad Let_def)

lemma decode_group:
  "base64_decode (sextet_char x # sextet_char y # sextet_char z # sextet_char w # rest) =
     map_option (\<lambda>bs.
        of_nat ((((x mod 64 * 64 + y mod 64) * 64 + z mod 64) * 64 + w mod 64) div 65536) #
        of_nat ((((x mod 64 * 64 + y mod 64) * 64 + z mod 64) * 64 + w mod 64) div 256) #
        of_nat (((x mod 64 * 64 + y mod 64) * 64 + z mod 64) * 64 + w mod 64) # bs)
       (base64_decode rest)"
  by (simp add: char_sextet_sextet_char sextet_char_not_pad Let_def)




lemma bytes_split:
  fixes a b c :: nat
  assumes "b < 256" "c < 256"
  shows "(a * 65536 + b * 256 + c) div 65536 = a"
    and "(a * 65536 + b * 256 + c) div 256 mod 256 = b"
    and "(a * 65536 + b * 256 + c) mod 256 = c"
proof -
  have e: "a * 65536 + b * 256 + c = (a * 256 + b) * 256 + c" by simp
  have md: "(x * 256 + y) mod 256 = y" "(x * 256 + y) div 256 = x" if "y < 256" for x y :: nat
    using that by simp_all
  show "(a * 65536 + b * 256 + c) mod 256 = c"
    unfolding e by (rule md) (rule assms)
  show "(a * 65536 + b * 256 + c) div 256 mod 256 = b"
    unfolding e md(2) [OF assms(2)] by (rule md) (rule assms)
  have "(a * 65536 + b * 256 + c) div 65536 = (a * 65536 + b * 256 + c) div 256 div 256"
    by (simp add: div_mult2_eq)
  also have "\<dots> = a"
    unfolding e md(2) [OF assms(2)] by (rule md) (rule assms)
  finally show "(a * 65536 + b * 256 + c) div 65536 = a" .
qed

lemma pad2_arith:
  fixes a :: nat
  assumes "a < 256"
  shows "((a * 65536 div 262144) mod 64 * 64 + (a * 65536 div 4096) mod 64) div 16 = a"
proof -
  have 1: "a * 65536 div 262144 = a div 4" by simp
  have 2: "a * 65536 div 4096 = a * 16" by simp
  have 3: "a div 4 mod 64 = a div 4" using assms by simp
  have 4: "a * 16 mod 64 = (a mod 4) * 16" by (simp add: mult_mod_left)
  show ?thesis unfolding 1 2 3 4 by simp
qed

lemma pad1_arith:
  fixes a b :: nat
  assumes "a < 256" "b < 256"
  defines "n \<equiv> a * 65536 + b * 256"
  shows "(((n div 262144) mod 64 * 64 + (n div 4096) mod 64) * 64 + (n div 64) mod 64) div 1024 = a"
    and "(((n div 262144) mod 64 * 64 + (n div 4096) mod 64) * 64 + (n div 64) mod 64) div 4 mod 256 = b"
proof -
  have n: "n = (a * 1024 + b * 4) * 64" by (simp add: n_def)
  define m where "m = a * 1024 + b * 4"
  have m: "m < 262144" using assms by (simp add: m_def)
  have d1: "n div 64 = m" by (simp add: n m_def)
  have d2: "n div 4096 = m div 64" by (simp add: n m_def)
  have d3: "n div 262144 = m div 64 div 64" by (simp add: n m_def div_mult2_eq)
  have lt: "m div 64 div 64 < 64" using m by (simp add: div_mult2_eq less_mult_imp_div_less)
  have j: "((n div 262144) mod 64 * 64 + (n div 4096) mod 64) * 64 + (n div 64) mod 64 = m"
    unfolding d1 d2 d3 using lt by simp
  have e: "m = (a * 256 + b) * 4" by (simp add: m_def)
  show "(((n div 262144) mod 64 * 64 + (n div 4096) mod 64) * 64 + (n div 64) mod 64) div 1024 = a"
    unfolding j using assms by (simp add: m_def)
  show "(((n div 262144) mod 64 * 64 + (n div 4096) mod 64) * 64 + (n div 64) mod 64) div 4 mod 256 = b"
    unfolding j e using assms by simp
qed



lemma byte_of_nat_eq:
  fixes b :: byte
  assumes "n mod 256 = unat b"
  shows "of_nat n = b"
proof -
  have "unat (of_nat n :: 8 word) = n mod 256" by (simp add: unat_of_nat)
  with assms have "unat (of_nat n :: 8 word) = unat b" by simp
  then show ?thesis by (simp only: word_unat_eq_iff)
qed


lemma sextets_join:
  fixes n :: nat
  assumes "n < 16777216"
  shows "(((n div 262144) mod 64 * 64 + (n div 4096) mod 64) * 64 + (n div 64) mod 64) * 64 + n mod 64 = n"
proof -
  have d3: "n div 262144 = n div 64 div 64 div 64" by (simp add: div_mult2_eq)
  have d2: "n div 4096 = n div 64 div 64" by (simp add: div_mult2_eq)
  have lt: "n div 64 div 64 div 64 < 64" using assms by (simp add: div_mult2_eq less_mult_imp_div_less)
  show ?thesis unfolding d3 d2 using lt by simp
qed

lemma unat_byte_less: "unat (a :: byte) < 256"
  using unsigned_less [of a] by simp

lemma decode_encode: "base64_decode (base64_encode bs) = Some bs"
proof (induction bs rule: base64_encode.induct)
  case 1
  then show ?case by simp
next
  case (2 a)
  have enc: "base64_encode [a] =
      [sextet_char (unat a * 65536 div 262144), sextet_char (unat a * 65536 div 4096), CHR ''='', CHR ''='']"
    by (simp only: base64_encode.simps Let_def)
  show ?case
    by (simp only: enc decode_pad2 pad2_arith [OF unat_byte_less] of_nat_unat ucast_id)
next
  case (3 a b)
  define n where "n = unat a * 65536 + unat b * 256"
  have enc: "base64_encode [a, b] =
      [sextet_char (n div 262144), sextet_char (n div 4096), sextet_char (n div 64), CHR ''='']"
    by (simp only: base64_encode.simps Let_def n_def)
  have ar1: "(((n div 262144) mod 64 * 64 + (n div 4096) mod 64) * 64 + (n div 64) mod 64) div 1024 = unat a"
    unfolding n_def by (rule pad1_arith [OF unat_byte_less unat_byte_less])
  have ar2: "(((n div 262144) mod 64 * 64 + (n div 4096) mod 64) * 64 + (n div 64) mod 64) div 4 mod 256 = unat b"
    unfolding n_def by (rule pad1_arith [OF unat_byte_less unat_byte_less])
  show ?case
    by (simp only: enc decode_pad1 ar1 of_nat_unat ucast_id byte_of_nat_eq [OF ar2])
next
  case (4 a b c rest)
  define n where "n = unat a * 65536 + unat b * 256 + unat c"
  have enc: "base64_encode (a # b # c # rest) =
      sextet_char (n div 262144) # sextet_char (n div 4096) # sextet_char (n div 64) #
      sextet_char n # base64_encode rest"
    by (simp only: base64_encode.simps Let_def n_def append.simps)
  have "unat a * 65536 \<le> 255 * 65536" "unat b * 256 \<le> 255 * 256"
    using unat_byte_less [of a] unat_byte_less [of b] by simp_all
  then have lt: "n < 16777216"
    unfolding n_def using unat_byte_less [of c] by simp
  have b1: "(of_nat (n div 65536) :: byte) = a"
    unfolding n_def by (simp only: bytes_split(1) [OF unat_byte_less unat_byte_less] of_nat_unat ucast_id)
  have b2: "(of_nat (n div 256) :: byte) = b"
    unfolding n_def by (rule byte_of_nat_eq) (rule bytes_split(2) [OF unat_byte_less unat_byte_less])
  have b3: "(of_nat n :: byte) = c"
    unfolding n_def by (rule byte_of_nat_eq) (rule bytes_split(3) [OF unat_byte_less unat_byte_less])
  show ?case
    by (simp only: enc decode_group sextets_join [OF lt] b1 b2 b3 "4.IH" option.map)
qed


subsection \<open>The chunked write\<close>

lemma split_no_sep: "sep \<notin> set s \<Longrightarrow> split sep s = [s]"
  by (induction s) auto

lemma sextet_char_in_alphabet: "sextet_char n \<in> set base64_alphabet"
  unfolding sextet_char_def by (rule nth_mem) (simp add: base64_alphabet_length)

lemma comma_not_in_alphabet: "CHR '','' \<notin> set base64_alphabet"
  by (simp add: base64_alphabet_def)

lemma sextet_char_not_comma: "sextet_char n \<noteq> CHR '',''"
  using sextet_char_in_alphabet [of n] comma_not_in_alphabet by metis

lemma base64_encode_no_comma: "CHR '','' \<notin> set (base64_encode bs)"
  by (induction bs rule: base64_encode.induct) (simp_all add: sextet_char_not_comma [symmetric] Let_def)

lemma data_url_payload:
  "index (split (CHR '','') (readAsDataURL blob)) 1 = Some (base64_encode blob)"
  by (simp add: readAsDataURL_def split_no_sep [OF base64_encode_no_comma])

lemma blobToBase64_cases:
  "blobToBase64 b blob h =
     (case fileReaderError b blob h of
        (Some e, h1) \<Rightarrow> (Inl e, h1)
      | (None, h1) \<Rightarrow> (Inr (Some (base64_encode blob)), h1))"
  unfolding blobToBase64_def data_url_payload by (rule refl)

lemma chunkSize_pos: "0 < chunkSize"
  by (simp add: chunkSize_def)

lemma chunk_count_less: "k < chunk_count S \<longleftrightarrow> k * chunkSize < S"
proof -
  have "k < chunk_count S \<longleftrightarrow> Suc k \<le> (S + chunkSize - 1) div chunkSize"
    by (simp add: chunk_count_def Suc_le_eq)
  also have "\<dots> \<longleftrightarrow> Suc k * chunkSize \<le> S + chunkSize - 1"
    by (rule less_eq_div_iff_mult_less_eq [OF chunkSize_pos])
  also have "\<dots> \<longleftrightarrow> k * chunkSize < S"
    using chunkSize_pos by auto
  finally show ?thesis .
qed

lemma is_chunk_write_chunk_call [simp]: "is_chunk_write (chunk_call p bs create i)"
  by (simp add: chunk_call_def)

text \<open>One turn of the loop: the read is rejected, the write is rejected, or the loop goes on.\<close>

lemma loop_turn:
  assumes "offset < file_size file"
    and "saveFileChunked_loop b file p offset first h = (r, h', t)"
  obtains (rejected_read) e h0 where
      "fileReaderError b (slice_blob (content file) offset (offset + chunkSize)) h = (Some e, h0)"
      "r = Inl e" "h' = h0" "t = []"
  | (rejected_write) e h0 ev where
      "fileReaderError b (slice_blob (content file) offset (offset + chunkSize)) h = (None, h0)"
      "writeChunk b p (Some (base64_encode (slice_blob (content file) offset (offset + chunkSize))))
         first h0 = (Inl e, h', ev, False)"
      "r = Inl e" "t = [ev]"
  | (next_turn) u h0 h1 ev t2 where
      "fileReaderError b (slice_blob (content file) offset (offset + chunkSize)) h = (None, h0)"
      "writeChunk b p (Some (base64_encode (slice_blob (content file) offset (offset + chunkSize))))
         first h0 = (Inr u, h1, ev, False)"
      "saveFileChunked_loop b file p (offset + chunkSize) False h1 = (r, h', t2)"
      "t = ev # Yield # t2"
proof -
  let ?blob = "slice_blob (content file) offset (offset + chunkSize)"
  obtain re h0 where rd: "fileReaderError b ?blob h = (re, h0)" by (metis prod.exhaust)
  show thesis
  proof (cases re)
    case (Some e)
    with assms rd have "r = Inl e" "h' = h0" "t = []"
      by (simp_all add: saveFileChunked_loop.simps [of b "file" p offset] blobToBase64_cases)
    with Some rd show thesis by (auto intro: rejected_read)
  next
    case None
    obtain r1 h1 ev f1 where wc:
      "writeChunk b p (Some (base64_encode ?blob)) first h0 = (r1, h1, ev, f1)"
      by (metis prod_cases4)
    then have f1: "f1 = False"
      by (auto simp: writeChunk_def split: prod.splits if_splits)
    show thesis
    proof (cases r1)
      case (Inl e)
      with assms rd None wc f1 have "r = Inl e" "h' = h1" "t = [ev]"
        by (simp_all add: saveFileChunked_loop.simps [of b "file" p offset] blobToBase64_cases)
      with Inl rd None wc f1 show thesis by (auto intro: rejected_write)
    next
      case (Inr u)
      obtain r2 h2 t2 where rec:
        "saveFileChunked_loop b file p (offset + chunkSize) False h1 = (r2, h2, t2)"
        by (metis prod_cases3)
      with assms rd None wc f1 Inr have "r = r2" "h' = h2" "t = ev # Yield # t2"
        by (simp_all add: saveFileChunked_loop.simps [of b "file" p offset] blobToBase64_cases)
      with Inr rd None wc f1 rec show thesis by (auto intro: next_turn)
    qed
  qed
qed

lemma loop_done:
  "\<not> offset < file_size file \<Longrightarrow> saveFileChunked_loop b file p offset first h = (Inr (), h, [])"
  by (simp add: saveFileChunked_loop.simps)

lemma writeChunk_event:
  "writeChunk b p d first h = (r, h1, ev, first1) \<Longrightarrow>
   ev = (if first then FsWriteFile p d Data True else FsAppendFile p d Data)"
  by (auto simp: writeChunk_def split: prod.splits if_splits)

lemma loop_writes:
  "saveFileChunked_loop b file p (k * chunkSize) first h = (Inr (), h', t) \<Longrightarrow>
   filter is_chunk_write t =
     map (\<lambda>i. chunk_call p (content file) (first \<and> i = k) i) [k..<chunk_count (file_size file)]"
proof (induction "chunk_count (file_size file) - k" arbitrary: k first h t)
  case 0
  then have "\<not> k * chunkSize < file_size file"
    by (simp add: chunk_count_less [symmetric])
  with "0.prems" show ?case
    using "0.hyps" by (simp add: loop_done)
next
  case (Suc n)
  then have lt: "k < chunk_count (file_size file)" by simp
  then have off: "k * chunkSize < file_size file" by (simp add: chunk_count_less)
  from off Suc.prems show ?case
  proof (cases rule: loop_turn)
    case (next_turn u h0 h1 ev t2)
    have ev: "ev = chunk_call p (content file) first k"
      using writeChunk_event [OF next_turn(2)] by (simp add: chunk_call_def)
    have rec: "saveFileChunked_loop b file p (Suc k * chunkSize) False h1 = (Inr (), h', t2)"
      using next_turn(3) by (simp add: add.commute)
    have n: "n = chunk_count (file_size file) - Suc k" using Suc.hyps(2) by simp
    have ih: "filter is_chunk_write t2 =
       map (\<lambda>i. chunk_call p (content file) (False \<and> i = Suc k) i)
         [Suc k..<chunk_count (file_size file)]"
      by (rule Suc.hyps(1) [OF n rec])
    have "filter is_chunk_write t = ev # filter is_chunk_write t2"
      using next_turn(4) ev by simp
    also have "\<dots> = map (\<lambda>i. chunk_call p (content file) (first \<and> i = k) i)
        [k..<chunk_count (file_size file)]"
      using lt ev ih by (simp add: upt_conv_Cons)
    finally show ?thesis .
  qed simp_all
qed

lemma take_chunks:
  "concat (map (\<lambda>i. slice_blob bs (i * c) (i * c + c)) [0..<n]) = take (n * c) bs"
proof (induction n)
  case 0
  then show ?case by simp
next
  case (Suc n)
  have "take (n * c + c) bs = take (n * c) bs @ take c (drop (n * c) bs)"
    by (rule take_add)
  with Suc show ?case by (simp add: slice_blob_def add.commute)
qed

lemma decoded_chunk_call:
  "decoded (chunk_call p bs create i) = slice_blob bs (i * chunkSize) (i * chunkSize + chunkSize)"
  by (simp add: decoded_def chunk_call_def decode_encode)

lemma chunk_count_covers: "file_size file \<le> chunk_count (file_size file) * chunkSize"
  using chunk_count_less [of "chunk_count (file_size file)" "file_size file"] by simp

lemma writeChunk_accepts:
  assumes "\<And>p d dir r h. fst (fsWriteFile b p d dir r h) = Inr ()"
      and "\<And>p d dir h. fst (fsAppendFile b p d dir h) = Inr ()"
  shows "fst (writeChunk b p d first h) = Inr ()"
  using assms(1) [of p d Data True h] assms(2) [of p d Data h]
  by (auto simp: writeChunk_def split: prod.splits)

text \<open>On a host that rejects no read and no write the loop ends without an error.\<close>

lemma saveFileChunked_loop_completes:
  assumes rd: "\<And>blob h. fst (fileReaderError b blob h) = None"
      and w: "\<And>p d dir r h. fst (fsWriteFile b p d dir r h) = Inr ()"
      and a: "\<And>p d dir h. fst (fsAppendFile b p d dir h) = Inr ()"
  shows "fst (saveFileChunked_loop b file p offset first h) = Inr ()"
proof (induction "file_size file - offset" arbitrary: offset first h rule: less_induct)
  case less
  show ?case
  proof (cases "offset < file_size file")
    case False
    then show ?thesis by (simp add: loop_done)
  next
    case True
    obtain r h' t where run: "saveFileChunked_loop b file p offset first h = (r, h', t)"
      by (metis prod_cases3)
    from True run show ?thesis
    proof (cases rule: loop_turn)
      case (rejected_read e h0)
      with rd [of "slice_blob (content file) offset (offset + chunkSize)" h] show ?thesis by simp
    next
      case (rejected_write e h0 ev)
      with writeChunk_accepts [OF w a, of p
          "Some (base64_encode (slice_blob (content file) offset (offset + chunkSize)))" first h0]
      show ?thesis by simp
    next
      case (next_turn u h0 h1 ev t2)
      have "file_size file - (offset + chunkSize) < file_size file - offset"
        using True chunkSize_pos by simp
      then have "fst (saveFileChunked_loop b file p (offset + chunkSize) False h1) = Inr ()"
        by (rule less)
      with next_turn(3) run show ?thesis by simp
    qed
  qed
qed


lemma saveFileChunked_loop_yields:
  "yields_between_from False (snd (snd (saveFileChunked_loop b file p offset first h)))"
proof (induction "file_size file - offset" arbitrary: offset first h rule: less_induct)
  case less
  show ?case
  proof (cases "offset < file_size file")
    case False
    then show ?thesis by (simp add: loop_done)
  next
    case True
    obtain r h' t where run: "saveFileChunked_loop b file p offset first h = (r, h', t)"
      by (metis prod_cases3)
    from True run show ?thesis
    proof (cases rule: loop_turn)
      case (rejected_read e h0)
      with run show ?thesis by simp
    next
      case (rejected_write e h0 ev)
      with run writeChunk_event [OF rejected_write(2)] show ?thesis by simp
    next
      case (next_turn u h0 h1 ev t2)
      have "file_size file - (offset + chunkSize) < file_size file - offset"
        using True chunkSize_pos by simp
      then have "yields_between_from False
          (snd (snd (saveFileChunked_loop b file p (offset + chunkSize) False h1)))"
        by (rule less)
      with run next_turn(3,4) writeChunk_event [OF next_turn(2)] show ?thesis by simp
    qed
  qed
qed

text \<open>
  The trace of the loop alternates chunk write and suspension. When the loop fails, either
  a read was rejected, after the suspension of the last write if there was one, or the
  last write was rejected and ends the trace.
\<close>

lemma saveFileChunked_loop_alternates:
  "saveFileChunked_loop b file p offset first h = (r, h', t) \<Longrightarrow>
   (case r of
      Inr _ \<Rightarrow> t = concat (map (\<lambda>e. [e, Yield]) (filter is_chunk_write t))
    | Inl _ \<Rightarrow>
        t = concat (map (\<lambda>e. [e, Yield]) (filter is_chunk_write t)) \<or>
        filter is_chunk_write t \<noteq> [] \<and>
        t = concat (map (\<lambda>e. [e, Yield]) (butlast (filter is_chunk_write t))) @
            [last (filter is_chunk_write t)])"
proof (induction "file_size file - offset" arbitrary: offset first h r t h' rule: less_induct)
  case less
  show ?case
  proof (cases "offset < file_size file")
    case False
    with less.prems show ?thesis by (auto simp: loop_done)
  next
    case True
    from True less.prems show ?thesis
    proof (cases rule: loop_turn)
      case (rejected_read e h0)
      then show ?thesis by simp
    next
      case (rejected_write e h0 ev)
      with writeChunk_event [OF rejected_write(2)] show ?thesis by simp
    next
      case (next_turn u h0 h1 ev t2)
      have ev: "is_chunk_write ev" using writeChunk_event [OF next_turn(2)] by simp
      have "file_size file - (offset + chunkSize) < file_size file - offset"
        using True chunkSize_pos by simp
      note ih = less.hyps [OF this next_turn(3)]
      show ?thesis
      proof (cases r)
        case (Inl e)
        with ih have
          "t2 = concat (map (\<lambda>e. [e, Yield]) (filter is_chunk_write t2)) \<or>
           filter is_chunk_write t2 \<noteq> [] \<and>
           t2 = concat (map (\<lambda>e. [e, Yield]) (butlast (filter is_chunk_write t2))) @
             [last (filter is_chunk_write t2)]" by simp
        with next_turn(4) ev Inl show ?thesis by auto
      next
        case (Inr v)
        with ih have "t2 = concat (map (\<lambda>e. [e, Yield]) (filter is_chunk_write t2))" by simp
        with next_turn(4) ev Inr show ?thesis by simp
      qed
    qed
  qed
qed


lemma loop_unfold:
  assumes "offset < file_size file"
    and "fileReaderError b (slice_blob (content file) offset (offset + chunkSize)) h = (None, h0)"
    and "writeChunk b p (Some (base64_encode (slice_blob (content file) offset (offset + chunkSize))))
           first h0 = (Inr u, h1, ev, f1)"
  shows "saveFileChunked_loop b file p offset first h =
     (case saveFileChunked_loop b file p (offset + chunkSize) False h1 of
        (r, h2, t) \<Rightarrow> (r, h2, ev # Yield # t))"
proof -
  have "f1 = False"
    using assms(3) by (auto simp: writeChunk_def split: prod.splits if_splits)
  with assms show ?thesis
    by (simp add: saveFileChunked_loop.simps [of b "file" p offset] blobToBase64_cases)
qed

subsection \<open>The chunked write on the reference host\<close>

lemma memfs_native [simp]: "isNativePlatform (memfs n) = n"
  by (simp add: memfs_def)

lemma memfs_reader: "fileReaderError (memfs n) blob s = (None, s)"
  by (simp add: memfs_def)

lemma memfs_accepts_reads: "fst (fileReaderError (memfs n) blob s) = None"
  by (simp add: memfs_reader)

lemma map_of_mem_put: "map_of (mem_put k v fs) k = Some v"
proof -
  have "map_of (filter (\<lambda>e. fst e \<noteq> k) fs) k = None"
    by (induction fs) auto
  then show ?thesis by (simp add: mem_put_def map_add_def)
qed

lemma mem_put_mem_put: "mem_put k v (mem_put k w fs) = mem_put k v fs"
  by (simp add: mem_put_def)

lemma memfs_write:
  "fsWriteFile (memfs n) p (Some (base64_encode bs)) Data r (fs, c) =
     (Inr (), (mem_put (''/data/'' @ p) bs fs, c))"
  by (simp add: memfs_def mem_writeFile_def decode_encode root_def)

lemma memfs_append:
  "map_of fs (''/data/'' @ p) = Some old \<Longrightarrow>
   fsAppendFile (memfs n) p (Some (base64_encode bs)) Data (fs, c) =
     (Inr (), (mem_put (''/data/'' @ p) (old @ bs) fs, c))"
  by (simp add: memfs_def mem_appendFile_def decode_encode root_def)

text \<open>
  On the reference host the loop leaves at the path the bytes of the file, whatever was
  there before: the first chunk creates the file and every later chunk is appended to
  what the earlier ones have left.
\<close>

lemma memfs_loop:
  assumes "first \<and> k = 0 \<or>
           \<not> first \<and> map_of fs (''/data/'' @ p) = Some (take (k * chunkSize) (content file))"
    and "k * chunkSize < file_size file"
  shows "\<exists>t. saveFileChunked_loop (memfs n) file p (k * chunkSize) first (fs, c) =
           (Inr (), (mem_put (''/data/'' @ p) (content file) fs, c), t)"
  using assms
proof (induction "chunk_count (file_size file) - k" arbitrary: k first fs)
  case 0
  then show ?case by (simp add: chunk_count_less [symmetric])
next
  case (Suc m)
  let ?key = "''/data/'' @ p"
  let ?blob = "slice_blob (content file) (k * chunkSize) (k * chunkSize + chunkSize)"
  let ?fs1 = "mem_put ?key (take (k * chunkSize + chunkSize) (content file)) fs"
  have wc: "writeChunk (memfs n) p (Some (base64_encode ?blob)) first (fs, c) =
      (Inr (), (?fs1, c),
       (if first then FsWriteFile p (Some (base64_encode ?blob)) Data True
        else FsAppendFile p (Some (base64_encode ?blob)) Data), False)"
  proof (cases first)
    case True
    with Suc.prems(1) have "k = 0" by simp
    with True show ?thesis
      by (simp add: writeChunk_def memfs_write slice_blob_def)
  next
    case False
    with Suc.prems(1) have old: "map_of fs ?key = Some (take (k * chunkSize) (content file))"
      by simp
    have "take (k * chunkSize) (content file) @ ?blob =
        take (k * chunkSize + chunkSize) (content file)"
      by (simp add: slice_blob_def take_add)
    with False show ?thesis
      by (simp add: writeChunk_def memfs_append [OF old])
  qed
  note unfold = loop_unfold [OF Suc.prems(2) memfs_reader wc]
  show ?case
  proof (cases "Suc k * chunkSize < file_size file")
    case True
    have m: "m = chunk_count (file_size file) - Suc k" using Suc.hyps(2) by simp
    have inv: "False \<and> Suc k = 0 \<or>
        \<not> False \<and> map_of ?fs1 ?key = Some (take (Suc k * chunkSize) (content file))"
      by (simp add: map_of_mem_put add.commute)
    from Suc.hyps(1) [OF m inv True] obtain t where
      "saveFileChunked_loop (memfs n) file p (Suc k * chunkSize) False (?fs1, c) =
         (Inr (), (mem_put ?key (content file) ?fs1, c), t)" by blast
    then show ?thesis
      unfolding unfold by (simp add: add.commute mem_put_mem_put)
  next
    case False
    then have "take (k * chunkSize + chunkSize) (content file) = content file"
      by (simp add: file_size_def add.commute)
    with False show ?thesis
      unfolding unfold by (simp add: loop_done add.commute)
  qed
qed

lemma memfs_saveFileChunked:
  assumes "0 < file_size file"
  shows "\<exists>t. saveFileChunked (memfs n) file p (fs, c) =
           (Inr (), (mem_put (''/data/'' @ p) (content file) fs, c), t)"
  using memfs_loop [of True 0 fs p "file" n c] assms by (simp add: saveFileChunked_def)


lemma big_size: "file_size big_file = 2097153"
  by (simp add: file_size_def big_file_def)

lemma big_chunks: "chunk_count (file_size big_file) = 3"
  by (simp add: big_size chunk_count_def chunkSize_def)

text \<open>
  A file of two chunks and one byte on the reference host: one \<open>writeFile\<close>, two
  \<open>appendFile\<close>, a suspension after each, and the bytes of the file at the path.
\<close>

lemma big_run:
  "saveFileChunked (memfs True) big_file ''aurora-files/documents/big.bin'' ([], 0) =
     (Inr (), ([(''/data/aurora-files/documents/big.bin'', content big_file)], 0),
      [FsWriteFile ''aurora-files/documents/big.bin''
         (Some (base64_encode (slice_blob (content big_file) 0 1048576))) Data True,
       Yield,
       FsAppendFile ''aurora-files/documents/big.bin''
         (Some (base64_encode (slice_blob (content big_file) 1048576 2097152))) Data,
       Yield,
       FsAppendFile ''aurora-files/documents/big.bin''
         (Some (base64_encode (slice_blob (content big_file) 2097152 3145728))) Data,
       Yield])"
proof -
  let ?p = "''aurora-files/documents/big.bin''"
  have pos: "0 < file_size big_file" by (simp add: big_size)
  from memfs_saveFileChunked [OF pos, of True ?p "[]" 0] obtain t where
    run: "saveFileChunked (memfs True) big_file ?p ([], 0) =
      (Inr (), (mem_put (''/data/'' @ ?p) (content big_file) [], 0), t)" by blast
  then have lp: "saveFileChunked_loop (memfs True) big_file ?p (0 * chunkSize) True ([], 0) =
      (Inr (), (mem_put (''/data/'' @ ?p) (content big_file) [], 0), t)"
    by (simp add: saveFileChunked_def)
  have "[0..<3] = [0, 1, Suc (Suc 0)]" by (simp add: upt_conv_Cons eval_nat_numeral)
  with loop_writes [OF lp] have ws: "filter is_chunk_write t =
      [FsWriteFile ?p (Some (base64_encode (slice_blob (content big_file) 0 1048576))) Data True,
       FsAppendFile ?p (Some (base64_encode (slice_blob (content big_file) 1048576 2097152))) Data,
       FsAppendFile ?p (Some (base64_encode (slice_blob (content big_file) 2097152 3145728))) Data]"
    by (simp add: big_chunks chunk_call_def chunkSize_def)
  from saveFileChunked_loop_alternates [OF lp]
  have "t = concat (map (\<lambda>e. [e, Yield]) (filter is_chunk_write t))" by simp
  then have "t =
      [FsWriteFile ?p (Some (base64_encode (slice_blob (content big_file) 0 1048576))) Data True,
       Yield,
       FsAppendFile ?p (Some (base64_encode (slice_blob (content big_file) 1048576 2097152))) Data,
       Yield,
       FsAppendFile ?p (Some (base64_encode (slice_blob (content big_file) 2097152 3145728))) Data,
       Yield]"
    unfolding ws by simp
  with run show ?thesis by (simp add: mem_put_def)
qed

text \<open>
  C1. For every file of size \<open>S > 0\<close> saved by the chunked write, with the chunk size
  of 1 MiB, exactly \<open>\<lceil>S / 1048576\<rceil>\<close> chunk-write calls are made: the first is
  \<open>writeFile\<close> with \<open>recursive: true\<close>, every later one is \<open>appendFile\<close>, call \<open>i\<close>
  carries the bytes from offset \<open>i * 1048576\<close>, and the decoded payloads, concatenated in
  call order, are the bytes of the file. The save does complete on every host that rejects
  no read and no write.
\<close>

theorem saveFileChunked_chunk_writes:
  assumes "0 < file_size file"
  shows
    "(saveFileChunked b file p h = (Inr (), h', t) \<longrightarrow>
        chunkSize = 1048576 \<and>
        filter is_chunk_write t =
          FsWriteFile p (Some (base64_encode (slice_blob (content file) 0 chunkSize))) Data True #
          map (\<lambda>i. FsAppendFile p
                     (Some (base64_encode
                        (slice_blob (content file) (i * chunkSize) (i * chunkSize + chunkSize))))
                     Data)
            [1..<chunk_count (file_size file)] \<and>
        length (filter is_chunk_write t) = (file_size file + 1048575) div 1048576 \<and>
        concat (map decoded (filter is_chunk_write t)) = content file) \<and>
     ((\<forall>blob s. fst (fileReaderError b blob s) = None) \<and>
      (\<forall>q d dir r s. fst (fsWriteFile b q d dir r s) = Inr ()) \<and>
      (\<forall>q d dir s. fst (fsAppendFile b q d dir s) = Inr ()) \<longrightarrow>
        fst (saveFileChunked b file p h) = Inr ())"
proof (intro conjI impI)
  assume run: "saveFileChunked b file p h = (Inr (), h', t)"
  let ?N = "chunk_count (file_size file)"
  let ?ws = "filter is_chunk_write t"
  from run have "saveFileChunked_loop b file p (0 * chunkSize) True h = (Inr (), h', t)"
    by (simp add: saveFileChunked_def)
  then have ws: "?ws = map (\<lambda>i. chunk_call p (content file) (True \<and> i = 0) i) [0..<?N]"
    by (rule loop_writes)
  have pos: "0 < ?N" using assms(1) by (simp add: chunk_count_less)
  show "chunkSize = 1048576" by (simp add: chunkSize_def)
  show "?ws =
       FsWriteFile p (Some (base64_encode (slice_blob (content file) 0 chunkSize))) Data True #
       map (\<lambda>i. FsAppendFile p
                  (Some (base64_encode
                     (slice_blob (content file) (i * chunkSize) (i * chunkSize + chunkSize))))
                  Data)
         [1..<?N]"
    unfolding ws using pos by (simp add: upt_conv_Cons chunk_call_def)
  show "length ?ws = (file_size file + 1048575) div 1048576"
    unfolding ws by (simp add: chunk_count_def chunkSize_def)
  have "concat (map decoded ?ws) =
        concat (map (\<lambda>i. slice_blob (content file) (i * chunkSize) (i * chunkSize + chunkSize)) [0..<?N])"
    unfolding ws by (simp add: decoded_chunk_call comp_def)
  also have "\<dots> = take (?N * chunkSize) (content file)"
    by (rule take_chunks)
  also have "\<dots> = content file"
    using chunk_count_covers [of "file"] by (simp add: file_size_def)
  finally show "concat (map decoded ?ws) = content file" .
next
  assume "(\<forall>blob s. fst (fileReaderError b blob s) = None) \<and>
      (\<forall>q d dir r s. fst (fsWriteFile b q d dir r s) = Inr ()) \<and>
      (\<forall>q d dir s. fst (fsAppendFile b q d dir s) = Inr ())"
  then show "fst (saveFileChunked b file p h) = Inr ()"
    unfolding saveFileChunked_def by (intro saveFileChunked_loop_completes) simp_all
qed

theorem saveFileChunked_chunk_writes_witness:
  "0 < file_size big_file \<and>
   saveFileChunked (memfs True) big_file ''aurora-files/documents/big.bin'' ([], 0) =
     (Inr (), ([(''/data/aurora-files/documents/big.bin'', content big_file)], 0),
      [FsWriteFile ''aurora-files/documents/big.bin''
         (Some (base64_encode (slice_blob (content big_file) 0 1048576))) Data True,
       Yield,
       FsAppendFile ''aurora-files/documents/big.bin''
         (Some (base64_encode (slice_blob (content big_file) 1048576 2097152))) Data,
       Yield,
       FsAppendFile ''aurora-files/documents/big.bin''
         (Some (base64_encode (slice_blob (content big_file) 2097152 3145728))) Data,
       Yield]) \<and>
   length (filter is_chunk_write
     [FsWriteFile ''aurora-files/documents/big.bin''
         (Some (base64_encode (slice_blob (content big_file) 0 1048576))) Data True,
       Yield,
       FsAppendFile ''aurora-files/documents/big.bin''
         (Some (base64_encode (slice_blob (content big_file) 1048576 2097152))) Data,
       Yield,
       FsAppendFile ''aurora-files/documents/big.bin''
         (Some (base64_encode (slice_blob (content big_file) 2097152 3145728))) Data,
       Yield]) = (2097153 + 1048575) div 1048576 \<and>
   concat (map decoded
     [FsWriteFile ''aurora-files/documents/big.bin''
         (Some (base64_encode (slice_blob (content big_file) 0 1048576))) Data True,
       FsAppendFile ''aurora-files/documents/big.bin''
         (Some (base64_encode (slice_blob (content big_file) 1048576 2097152))) Data,
       FsAppendFile ''aurora-files/documents/big.bin''
         (Some (base64_encode (slice_blob (content big_file) 2097152 3145728))) Data]) =
     content big_file \<and>
   (\<forall>blob s. fst (fileReaderError sink_host blob s) = None) \<and>
   (\<forall>q d dir r s. fst (fsWriteFile sink_host q d dir r s) = Inr ()) \<and>
   (\<forall>q d dir s. fst (fsAppendFile sink_host q d dir s) = Inr ()) \<and>
   fst (saveFileChunked sink_host big_file ''aurora-files/documents/big.bin'' ([], 0)) = Inr ()"
proof -
  have pos: "0 < file_size big_file" by (simp add: big_size)
  have r: "\<forall>blob s. fst (fileReaderError sink_host blob s) = None"
    by (simp add: sink_host_def memfs_def)
  have w: "\<forall>q d dir r s. fst (fsWriteFile sink_host q d dir r s) = Inr ()"
    by (simp add: sink_host_def)
  have a: "\<forall>q d dir s. fst (fsAppendFile sink_host q d dir s) = Inr ()"
    by (simp add: sink_host_def)
  from saveFileChunked_chunk_writes [OF pos, THEN conjunct2, of sink_host
      "''aurora-files/documents/big.bin''" "([], 0)"] r w a
  have k: "fst (saveFileChunked sink_host big_file ''aurora-files/documents/big.bin'' ([], 0)) =
      Inr ()" by blast
  note th = saveFileChunked_chunk_writes [OF pos, THEN conjunct1, THEN mp, OF big_run]
  from th have "concat (map decoded (filter is_chunk_write
     [FsWriteFile ''aurora-files/documents/big.bin''
         (Some (base64_encode (slice_blob (content big_file) 0 1048576))) Data True,
       Yield,
       FsAppendFile ''aurora-files/documents/big.bin''
         (Some (base64_encode (slice_blob (content big_file) 1048576 2097152))) Data,
       Yield,
       FsAppendFile ''aurora-files/documents/big.bin''
         (Some (base64_encode (slice_blob (content big_file) 2097152 3145728))) Data,
       Yield])) = content big_file" by blast
  then have c: "concat (map decoded
     [FsWriteFile ''aurora-files/documents/big.bin''
         (Some (base64_encode (slice_blob (content big_file) 0 1048576))) Data True,
       FsAppendFile ''aurora-files/documents/big.bin''
         (Some (base64_encode (slice_blob (content big_file) 1048576 2097152))) Data,
       FsAppendFile ''aurora-files/documents/big.bin''
         (Some (base64_encode (slice_blob (content big_file) 2097152 3145728))) Data]) =
     content big_file" by simp
  have l: "length (filter is_chunk_write
     [FsWriteFile ''aurora-files/documents/big.bin''
         (Some (base64_encode (slice_blob (content big_file) 0 1048576))) Data True,
       Yield,
       FsAppendFile ''aurora-files/documents/big.bin''
         (Some (base64_encode (slice_blob (content big_file) 1048576 2097152))) Data,
       Yield,
       FsAppendFile ''aurora-files/documents/big.bin''
         (Some (base64_encode (slice_blob (content big_file) 2097152 3145728))) Data,
       Yield]) = (2097153 + 1048575) div 1048576" by simp
  from pos big_run l c r w a k show ?thesis by blast
qed


subsection \<open>The strategies of \<open>saveFile\<close>\<close>

lemma saveFile_nonnative:
  "\<not> isNativePlatform b \<Longrightarrow>
   saveFile b file h =
     (Inr \<lparr>res_uri = fst (createObjectURL b file h), res_size = file_size file,
           res_mimeType = file_type file\<rparr>,
      snd (createObjectURL b file h), [CreateObjectURL file])"
  by (simp add: saveFile_def isSupportedCapacitor_def split: prod.splits)

lemma saveFile_native_copy:
  assumes "isNativePlatform b" "sourceUri file = Some s" "s \<noteq> []"
  shows "saveFile b file h =
     (case saveFile_copy b s (target_path b file h) (snd (generateFilename b (file_name file) h)) of
        (Inl e, h2, t) \<Rightarrow> (Inl e, h2, t @ [ConsoleError save_error e])
      | (Inr _, h2, t) \<Rightarrow>
          (case fsGetUri b (target_path b file h) Data h2 of
             (Inl e, h3) \<Rightarrow>
               (Inl e, h3, t @ [FsGetUri (target_path b file h) Data, ConsoleError save_error e])
           | (Inr u, h3) \<Rightarrow>
               (Inr \<lparr>res_uri = u, res_size = file_size file, res_mimeType = file_type file\<rparr>, h3,
                t @ [FsGetUri (target_path b file h) Data])))"
  using assms
  by (auto simp: saveFile_def saveFile_try_def isSupportedCapacitor_def target_path_def
        sourceUri_def save_error_def Let_def split: prod.splits sum.splits)

lemma saveFile_native_chunked:
  assumes "isNativePlatform b" "\<not> truthy (sourceUri file)"
  shows "saveFile b file h =
     (case saveFileChunked b file (target_path b file h)
             (snd (generateFilename b (file_name file) h)) of
        (Inl e, h2, t) \<Rightarrow> (Inl e, h2, ConsoleWarn chunked_warning # t @ [ConsoleError save_error e])
      | (Inr _, h2, t) \<Rightarrow>
          (case fsGetUri b (target_path b file h) Data h2 of
             (Inl e, h3) \<Rightarrow>
               (Inl e, h3, ConsoleWarn chunked_warning # t @
                  [FsGetUri (target_path b file h) Data, ConsoleError save_error e])
           | (Inr u, h3) \<Rightarrow>
               (Inr \<lparr>res_uri = u, res_size = file_size file, res_mimeType = file_type file\<rparr>, h3,
                ConsoleWarn chunked_warning # t @ [FsGetUri (target_path b file h) Data])))"
  using assms
  by (auto simp: saveFile_def saveFile_try_def isSupportedCapacitor_def target_path_def
        sourceUri_def save_error_def chunked_warning_def truthy_def Let_def
        split: prod.splits sum.splits option.splits)

lemma toString10_now: "toString10 1700000000000 = ''1700000000000''"
  by (simp add: toString10.simps digit_def)







text \<open>
  C3. When \<open>saveFile\<close> copies natively and the first copy is rejected, one more copy is
  made, without the \<open>directory\<close> option. If that one is rejected too, \<open>saveFile\<close>
  fails with its error, and neither a chunk write nor \<open>getUri\<close> is called.
\<close>

theorem saveFile_copy_retry:
  assumes "isNativePlatform b" and "sourceUri file = Some s" and "s \<noteq> []"
    and "fsCopy b s (target_path b file h) Data (Some External)
           (snd (generateFilename b (file_name file) h)) = (Inl e1, h1)"
    and "fsCopy b s (target_path b file h) Data None h1 = (r2, h2)"
  shows "saveFile b file h =
     (case r2 of
        Inl e2 \<Rightarrow>
          (Inl e2, h2,
           [FsCopy s (target_path b file h) Data (Some External),
            FsCopy s (target_path b file h) Data None,
            ConsoleError save_error e2])
      | Inr _ \<Rightarrow>
          (case fsGetUri b (target_path b file h) Data h2 of
             (Inl e, h3) \<Rightarrow>
               (Inl e, h3,
                [FsCopy s (target_path b file h) Data (Some External),
                 FsCopy s (target_path b file h) Data None,
                 FsGetUri (target_path b file h) Data,
                 ConsoleError save_error e])
           | (Inr u, h3) \<Rightarrow>
               (Inr \<lparr>res_uri = u, res_size = file_size file, res_mimeType = file_type file\<rparr>, h3,
                [FsCopy s (target_path b file h) Data (Some External),
                 FsCopy s (target_path b file h) Data None,
                 FsGetUri (target_path b file h) Data])))"
proof -
  have "saveFile_copy b s (target_path b file h) (snd (generateFilename b (file_name file) h)) =
      (r2, h2, [FsCopy s (target_path b file h) Data (Some External),
                FsCopy s (target_path b file h) Data None])"
    using assms(4,5) by (simp add: saveFile_copy_def)
  then show ?thesis
    unfolding saveFile_native_copy [OF assms(1-3)]
    by (simp split: sum.splits prod.splits)
qed

text \<open>
  C10. With the native capability, no source locator and a file of zero bytes,
  \<open>saveFile\<close> calls neither \<open>writeFile\<close> nor \<open>appendFile\<close>; it still calls
  \<open>getUri\<close> on the computed path and, when that resolves, returns a reference of
  size 0.
\<close>

theorem saveFile_empty_file:
  assumes "isNativePlatform b" and "\<not> truthy (sourceUri file)" and "content file = []"
  shows "saveFile b file h =
     (case fsGetUri b (target_path b file h) Data (snd (generateFilename b (file_name file) h)) of
        (Inl e, h3) \<Rightarrow>
          (Inl e, h3,
           [ConsoleWarn chunked_warning, FsGetUri (target_path b file h) Data,
            ConsoleError save_error e])
      | (Inr u, h3) \<Rightarrow>
          (Inr \<lparr>res_uri = u, res_size = 0, res_mimeType = file_type file\<rparr>, h3,
           [ConsoleWarn chunked_warning, FsGetUri (target_path b file h) Data]))"
proof -
  have "saveFileChunked b file (target_path b file h) (snd (generateFilename b (file_name file) h))
      = (Inr (), snd (generateFilename b (file_name file) h), [])"
    using assms(3) by (simp add: saveFileChunked_def loop_done file_size_def)
  then show ?thesis
    unfolding saveFile_native_chunked [OF assms(1,2)]
    using assms(3) by (simp add: file_size_def split: sum.splits prod.splits)
qed

subsection \<open>Suspension between chunks\<close>

lemma yields_between_from_no_writes:
  "list_all (\<lambda>e. \<not> is_chunk_write e) t \<Longrightarrow> yields_between_from q t"
  by (induction t arbitrary: q) auto

lemma yields_between_from_append:
  "list_all (\<lambda>e. \<not> is_chunk_write e) u \<Longrightarrow>
   yields_between_from q (t @ u) = yields_between_from q t"
  by (induction t arbitrary: q) (auto simp: yields_between_from_no_writes)

text \<open>
  C7. In a chunked write every chunk write that completes is followed at once by the
  zero-duration suspension, before the next chunk is read and written; a read or a write
  that is rejected ends the chunked write. So between any two consecutive chunk-write calls
  of one \<open>saveFile\<close> invocation there is a suspension.
\<close>

theorem chunk_writes_yield:
  "yields_between (snd (snd (saveFile b file h))) \<and>
   (case saveFileChunked b file p h of
      (Inr _, h', t) \<Rightarrow> t = concat (map (\<lambda>e. [e, Yield]) (filter is_chunk_write t))
    | (Inl _, h', t) \<Rightarrow>
        t = concat (map (\<lambda>e. [e, Yield]) (filter is_chunk_write t)) \<or>
        filter is_chunk_write t \<noteq> [] \<and>
        t = concat (map (\<lambda>e. [e, Yield]) (butlast (filter is_chunk_write t))) @
            [last (filter is_chunk_write t)])"
proof -
  have 1: "yields_between (snd (snd (saveFile b file h)))"
  proof (cases "isNativePlatform b")
    case False
    then show ?thesis by (simp add: saveFile_nonnative yields_between_def)
  next
    case True
    show ?thesis
    proof (cases "truthy (sourceUri file)")
      case copy: True
      then obtain s where s: "sourceUri file = Some s" "s \<noteq> []"
        by (auto simp: truthy_def split: option.splits)
      show ?thesis
        unfolding saveFile_native_copy [OF True s] yields_between_def
        by (auto simp: saveFile_copy_def split: prod.splits sum.splits)
    next
      case chunked: False
      let ?p = "target_path b file h"
      let ?h1 = "snd (generateFilename b (file_name file) h)"
      obtain r h2 t where run: "saveFileChunked b file ?p ?h1 = (r, h2, t)"
        by (metis prod_cases3)
      have t: "yields_between_from False t"
        using saveFileChunked_loop_yields [of b "file" ?p 0 True ?h1] run
        by (simp add: saveFileChunked_def)
      show ?thesis
        unfolding saveFile_native_chunked [OF True chunked] run yields_between_def
        using t by (auto simp: yields_between_from_append split: prod.splits sum.splits)
    qed
  qed
  obtain r h' t where run: "saveFileChunked b file p h = (r, h', t)"
    by (metis prod_cases3)
  then have "saveFileChunked_loop b file p 0 True h = (r, h', t)"
    by (simp add: saveFileChunked_def)
  from saveFileChunked_loop_alternates [OF this] run 1 show ?thesis
    by (auto split: sum.splits)
qed


subsection \<open>Runs on the reference host\<close>

lemma clip_filename:
  "generateFilename (memfs True) (file_name clip_file) ([], 0) =
     (''1700000000000_k3x9q2.mp4'', ([], 1))"
  by (simp add: generateFilename_def memfs_def clip_file_def toString10_now substring_def
        or_literal_def pop_def)

lemma clip_path: "target_path (memfs True) clip_file ([], 0) = ''aurora-files/videos/1700000000000_k3x9q2.mp4''"
  by (simp add: target_path_def clip_filename) (simp add: clip_file_def getCategory_def startsWith_def)

lemma clip_source: "sourceUri clip_file = Some ''/tmp/missing.mp4''"
  by (simp add: sourceUri_def clip_file_def or_else_def truthy_def)

lemma clip_copy:
  "fsCopy (memfs True) ''/tmp/missing.mp4'' p Data d ([], c) =
     (Inl (Rejected ''File does not exist''), ([], c))"
  by (simp add: memfs_def mem_copy_def)

theorem saveFile_copy_retry_witness:
  "isNativePlatform (memfs True) \<and>
   sourceUri clip_file = Some ''/tmp/missing.mp4'' \<and>
   fsCopy (memfs True) ''/tmp/missing.mp4'' (target_path (memfs True) clip_file ([], 0)) Data
     (Some External) (snd (generateFilename (memfs True) (file_name clip_file) ([], 0))) =
     (Inl (Rejected ''File does not exist''), ([], 1)) \<and>
   fsCopy (memfs True) ''/tmp/missing.mp4'' (target_path (memfs True) clip_file ([], 0)) Data
     None ([], 1) = (Inl (Rejected ''File does not exist''), ([], 1)) \<and>
   saveFile (memfs True) clip_file ([], 0) =
     (Inl (Rejected ''File does not exist''), ([], 1),
      [FsCopy ''/tmp/missing.mp4'' ''aurora-files/videos/1700000000000_k3x9q2.mp4'' Data
         (Some External),
       FsCopy ''/tmp/missing.mp4'' ''aurora-files/videos/1700000000000_k3x9q2.mp4'' Data None,
       ConsoleError save_error (Rejected ''File does not exist'')])"
proof -
  have n: "isNativePlatform (memfs True)" by simp
  have ne: "''/tmp/missing.mp4'' \<noteq> []" by simp
  have c1: "fsCopy (memfs True) ''/tmp/missing.mp4'' (target_path (memfs True) clip_file ([], 0))
      Data (Some External) (snd (generateFilename (memfs True) (file_name clip_file) ([], 0))) =
      (Inl (Rejected ''File does not exist''), ([], 1))"
    by (simp add: clip_filename clip_copy)
  have c2: "fsCopy (memfs True) ''/tmp/missing.mp4'' (target_path (memfs True) clip_file ([], 0))
      Data None ([], 1) = (Inl (Rejected ''File does not exist''), ([], 1))"
    by (rule clip_copy)
  from saveFile_copy_retry [OF n clip_source ne c1 c2] n clip_source c1 c2
  show ?thesis by (simp add: clip_path)
qed

lemma empty_filename:
  "generateFilename (memfs True) (file_name empty_file) ([], 0) =
     (''1700000000000_k3x9q2.txt'', ([], 1))"
  by (simp add: generateFilename_def memfs_def empty_file_def toString10_now substring_def
        or_literal_def pop_def)

lemma empty_path: "target_path (memfs True) empty_file ([], 0) = ''aurora-files/documents/1700000000000_k3x9q2.txt''"
  by (simp add: target_path_def empty_filename) (simp add: empty_file_def getCategory_def startsWith_def)

theorem saveFile_empty_file_witness:
  "isNativePlatform (memfs True) \<and> \<not> truthy (sourceUri empty_file) \<and> content empty_file = [] \<and>
   saveFile (memfs True) empty_file ([], 0) =
     (Inr \<lparr>res_uri = ''file:///data/aurora-files/documents/1700000000000_k3x9q2.txt'',
           res_size = 0, res_mimeType = ''text/plain''\<rparr>,
      ([], 1),
      [ConsoleWarn chunked_warning,
       FsGetUri ''aurora-files/documents/1700000000000_k3x9q2.txt'' Data])"
proof -
  have n: "isNativePlatform (memfs True)" by simp
  have s: "\<not> truthy (sourceUri empty_file)"
    by (simp add: sourceUri_def empty_file_def or_else_def truthy_def)
  have c: "content empty_file = []" by (simp add: empty_file_def)
  have g: "fsGetUri (memfs True) p Data h = (Inr (''file:///data/'' @ p), h)" for p h
    by (simp add: memfs_def mem_getUri_def root_def)
  from saveFile_empty_file [OF n s c, of "([], 0)"] n s c
  show ?thesis by (simp add: empty_path empty_filename g) (simp add: empty_file_def)
qed














lemma flaky_run:
  "saveFileChunked flaky_host big_file ''aurora-files/documents/big.bin'' ([], 0) =
     (Inl (Rejected ''NotReadableError''),
      ([(''/data/aurora-files/documents/big.bin'', slice_blob (content big_file) 0 1048576)], 1),
      [FsWriteFile ''aurora-files/documents/big.bin''
         (Some (base64_encode (slice_blob (content big_file) 0 1048576))) Data True,
       Yield])"
proof -
  let ?p = "''aurora-files/documents/big.bin''"
  let ?blob = "slice_blob (content big_file) 0 (0 + chunkSize)"
  let ?s1 = "([(''/data/aurora-files/documents/big.bin'', slice_blob (content big_file) 0 1048576)], 1)"
  have off: "0 < file_size big_file" by (simp add: big_size)
  have rd: "fileReaderError flaky_host ?blob ([], 0) = (None, ([], 1))"
    by (simp add: flaky_host_def)
  have wc: "writeChunk flaky_host ?p (Some (base64_encode ?blob)) True ([], 1) =
      (Inr (), ?s1,
       FsWriteFile ?p (Some (base64_encode ?blob)) Data True, False)"
    by (simp add: writeChunk_def flaky_host_def memfs_def mem_writeFile_def decode_encode
          root_def mem_put_def chunkSize_def)
  have off2: "0 + chunkSize < file_size big_file" by (simp add: big_size chunkSize_def)
  have rd2: "fileReaderError flaky_host blob ?s1 = (Some (Rejected ''NotReadableError''), ?s1)"
    for blob by (simp add: flaky_host_def)
  have bl: "blobToBase64 flaky_host blob ?s1 = (Inl (Rejected ''NotReadableError''), ?s1)"
    for blob unfolding blobToBase64_def rd2 by simp
  have "saveFileChunked_loop flaky_host big_file ?p (0 + chunkSize) False ?s1 =
      (Inl (Rejected ''NotReadableError''), ?s1, [])"
    unfolding saveFileChunked_loop.simps [of flaky_host big_file ?p "0 + chunkSize"] bl
    using off2 by simp
  then show ?thesis
    unfolding saveFileChunked_def loop_unfold [OF off rd wc]
    by (simp add: chunkSize_def)
qed

theorem chunk_writes_yield_witness:
  "yields_between (snd (snd (saveFile (memfs True) big_file ([], 0)))) \<and>
   saveFileChunked (memfs True) big_file ''aurora-files/documents/big.bin'' ([], 0) =
     (Inr (), ([(''/data/aurora-files/documents/big.bin'', content big_file)], 0),
      [FsWriteFile ''aurora-files/documents/big.bin''
         (Some (base64_encode (slice_blob (content big_file) 0 1048576))) Data True,
       Yield,
       FsAppendFile ''aurora-files/documents/big.bin''
         (Some (base64_encode (slice_blob (content big_file) 1048576 2097152))) Data,
       Yield,
       FsAppendFile ''aurora-files/documents/big.bin''
         (Some (base64_encode (slice_blob (content big_file) 2097152 3145728))) Data,
       Yield]) \<and>
   yields_between
     [FsWriteFile ''aurora-files/documents/big.bin''
         (Some (base64_encode (slice_blob (content big_file) 0 1048576))) Data True,
       Yield,
       FsAppendFile ''aurora-files/documents/big.bin''
         (Some (base64_encode (slice_blob (content big_file) 1048576 2097152))) Data,
       Yield,
       FsAppendFile ''aurora-files/documents/big.bin''
         (Some (base64_encode (slice_blob (content big_file) 2097152 3145728))) Data,
       Yield] \<and>
   \<not> yields_between
     [FsWriteFile ''aurora-files/documents/big.bin''
         (Some (base64_encode (slice_blob (content big_file) 0 1048576))) Data True,
       FsAppendFile ''aurora-files/documents/big.bin''
         (Some (base64_encode (slice_blob (content big_file) 1048576 2097152))) Data,
       Yield] \<and>
   saveFileChunked flaky_host big_file ''aurora-files/documents/big.bin'' ([], 0) =
     (Inl (Rejected ''NotReadableError''),
      ([(''/data/aurora-files/documents/big.bin'', slice_blob (content big_file) 0 1048576)], 1),
      [FsWriteFile ''aurora-files/documents/big.bin''
         (Some (base64_encode (slice_blob (content big_file) 0 1048576))) Data True,
       Yield])"
proof -
  note th = chunk_writes_yield [of "memfs True" big_file "([], 0)" "''aurora-files/documents/big.bin''"]
  from th have 1: "yields_between (snd (snd (saveFile (memfs True) big_file ([], 0))))"
    by (rule conjunct1)
  have 2: "yields_between
     [FsWriteFile ''aurora-files/documents/big.bin''
         (Some (base64_encode (slice_blob (content big_file) 0 1048576))) Data True,
       Yield,
       FsAppendFile ''aurora-files/documents/big.bin''
         (Some (base64_encode (slice_blob (content big_file) 1048576 2097152))) Data,
       Yield,
       FsAppendFile ''aurora-files/documents/big.bin''
         (Some (base64_encode (slice_blob (content big_file) 2097152 3145728))) Data,
       Yield]"
    by (simp add: yields_between_def)
  have 3: "\<not> yields_between
     [FsWriteFile ''aurora-files/documents/big.bin''
         (Some (base64_encode (slice_blob (content big_file) 0 1048576))) Data True,
       FsAppendFile ''aurora-files/documents/big.bin''
         (Some (base64_encode (slice_blob (content big_file) 1048576 2097152))) Data,
       Yield]"
    by (simp add: yields_between_def)
  from 1 big_run 2 3 flaky_run show ?thesis by blast
qed


subsection \<open>Deletion\<close>

text \<open>
  The pattern has no match exactly when the URI nowhere contains \<open>aurora-files/\<close>
  followed by a character other than a line terminator.
\<close>

lemma startsWith_iff: "startsWith s p \<longleftrightarrow> (\<exists>r. s = p @ r)"
proof
  assume "startsWith s p"
  then have "s = p @ drop (length p) s"
    by (metis append_take_drop_id startsWith_def)
  then show "\<exists>r. s = p @ r" ..
next
  assume "\<exists>r. s = p @ r"
  then show "startsWith s p" by (auto simp: startsWith_def)
qed

lemma match_here:
  "(startsWith s ''aurora-files/'' \<and>
      (case drop 13 s of [] \<Rightarrow> False | d # _ \<Rightarrow> \<not> lineTerminator d)) \<longleftrightarrow>
   (\<exists>d rest. s = ''aurora-files/'' @ d # rest \<and> \<not> lineTerminator d)"
proof
  assume l: "startsWith s ''aurora-files/'' \<and>
      (case drop 13 s of [] \<Rightarrow> False | d # _ \<Rightarrow> \<not> lineTerminator d)"
  then obtain r where r: "s = ''aurora-files/'' @ r" by (auto simp: startsWith_iff)
  then have "drop 13 s = r" by simp
  with l obtain d rest where "r = d # rest" "\<not> lineTerminator d"
    by (cases r) auto
  with r show "\<exists>d rest. s = ''aurora-files/'' @ d # rest \<and> \<not> lineTerminator d" by blast
next
  assume "\<exists>d rest. s = ''aurora-files/'' @ d # rest \<and> \<not> lineTerminator d"
  then obtain d rest where s: "s = ''aurora-files/'' @ d # rest" and d: "\<not> lineTerminator d"
    by blast
  have "startsWith s ''aurora-files/''" unfolding startsWith_iff using s by blast
  moreover have "drop 13 s = d # rest" using s by simp
  ultimately show "startsWith s ''aurora-files/'' \<and>
      (case drop 13 s of [] \<Rightarrow> False | d # _ \<Rightarrow> \<not> lineTerminator d)"
    using d by simp
qed

lemma match_aurora_files_None_iff:
  "match_aurora_files u = None \<longleftrightarrow>
   \<not> (\<exists>pre d rest. u = pre @ ''aurora-files/'' @ d # rest \<and> \<not> lineTerminator d)"
proof (induction u)
  case Nil
  then show ?case by simp
next
  case (Cons c cs)
  let ?here = "\<exists>d rest. c # cs = ''aurora-files/'' @ d # rest \<and> \<not> lineTerminator d"
  have split: "(\<exists>pre d rest. c # cs = pre @ ''aurora-files/'' @ d # rest \<and> \<not> lineTerminator d) \<longleftrightarrow>
      ?here \<or> (\<exists>pre d rest. cs = pre @ ''aurora-files/'' @ d # rest \<and> \<not> lineTerminator d)"
  proof
    assume "\<exists>pre d rest. c # cs = pre @ ''aurora-files/'' @ d # rest \<and> \<not> lineTerminator d"
    then obtain pre d rest where e: "c # cs = pre @ ''aurora-files/'' @ d # rest" and d: "\<not> lineTerminator d"
      by blast
    show "?here \<or> (\<exists>pre d rest. cs = pre @ ''aurora-files/'' @ d # rest \<and> \<not> lineTerminator d)"
    proof (cases pre)
      case Nil
      with e d show ?thesis by auto
    next
      case (Cons x pre')
      with e have "cs = pre' @ ''aurora-files/'' @ d # rest" by simp
      with d show ?thesis by blast
    qed
  next
    assume "?here \<or> (\<exists>pre d rest. cs = pre @ ''aurora-files/'' @ d # rest \<and> \<not> lineTerminator d)"
    then show "\<exists>pre d rest. c # cs = pre @ ''aurora-files/'' @ d # rest \<and> \<not> lineTerminator d"
    proof
      assume ?here
      then obtain d rest where "c # cs = [] @ ''aurora-files/'' @ d # rest" "\<not> lineTerminator d"
        by auto
      then show ?thesis by blast
    next
      assume "\<exists>pre d rest. cs = pre @ ''aurora-files/'' @ d # rest \<and> \<not> lineTerminator d"
      then obtain pre d rest where "cs = pre @ ''aurora-files/'' @ d # rest" "\<not> lineTerminator d"
        by blast
      then have "c # cs = (c # pre) @ ''aurora-files/'' @ d # rest" by simp
      with \<open>\<not> lineTerminator d\<close> show ?thesis by blast
    qed
  qed
  have here: "match_aurora_files (c # cs) = None \<longleftrightarrow> \<not> ?here \<and> match_aurora_files cs = None"
    using match_here [of "c # cs"] by (simp del: append.simps)
  show ?case
    unfolding here split Cons.IH by (simp only: de_Morgan_disj)
qed

lemma deleteFile_native_no_match:
  "isNativePlatform b \<Longrightarrow> match_aurora_files u = None \<Longrightarrow> deleteFile b u h = (Inr (), h, [])"
  by (simp add: deleteFile_def deleteFile_try_def isSupportedCapacitor_def)

lemma deleteFile_nonnative:
  "\<not> isNativePlatform b \<Longrightarrow>
   deleteFile b u h =
     (if startsWith u ''blob:'' then (Inr (), revokeObjectURL b u h, [RevokeObjectURL u])
      else (Inr (), h, []))"
  by (simp add: deleteFile_def isSupportedCapacitor_def)

lemma deleteFile_returns: "fst (deleteFile b u h) = Inr ()"
  by (auto simp: deleteFile_def split: prod.splits sum.splits)

text \<open>
  C6, as amended. \<open>deleteFile\<close> never fails, whatever the URI, the host and its state,
  so neither does a second deletion of the same reference. A URI in which the pattern
  \<open>aurora-files/.+\<close> has no match causes no call on the filesystem in either mode: with
  the native capability nothing happens at all; without it the only effect is the
  revocation of the handle when the URI starts with \<open>blob:\<close>.
\<close>

theorem deleteFile_never_fails:
  "fst (deleteFile b u h) = Inr () \<and>
   fst (deleteFile b u (fst (snd (deleteFile b u h)))) = Inr () \<and>
   (match_aurora_files u = None \<longrightarrow>
      list_all (\<lambda>e. \<not> is_fs_call e) (snd (snd (deleteFile b u h))) \<and>
      (isNativePlatform b \<longrightarrow> deleteFile b u h = (Inr (), h, [])) \<and>
      (\<not> isNativePlatform b \<longrightarrow>
         deleteFile b u h =
           (if startsWith u ''blob:'' then (Inr (), revokeObjectURL b u h, [RevokeObjectURL u])
            else (Inr (), h, []))))"
proof -
  have 1: "fst (deleteFile b u h) = Inr ()"
    by (rule deleteFile_returns)
  have 2: "fst (deleteFile b u (fst (snd (deleteFile b u h)))) = Inr ()"
    by (rule deleteFile_returns)
  have 3: "list_all (\<lambda>e. \<not> is_fs_call e) (snd (snd (deleteFile b u h)))"
    if "match_aurora_files u = None"
  proof (cases "isNativePlatform b")
    case True
    then show ?thesis by (simp add: deleteFile_native_no_match [OF True that])
  next
    case False
    then show ?thesis by (simp add: deleteFile_nonnative [OF False])
  qed
  show ?thesis
  proof (intro conjI impI)
    show "fst (deleteFile b u h) = Inr ()" by (rule 1)
    show "fst (deleteFile b u (fst (snd (deleteFile b u h)))) = Inr ()" by (rule 2)
    show "list_all (\<lambda>e. \<not> is_fs_call e) (snd (snd (deleteFile b u h)))"
      if "match_aurora_files u = None" using that by (rule 3)
    show "deleteFile b u h = (Inr (), h, [])"
      if "match_aurora_files u = None" "isNativePlatform b"
      using that(2,1) by (rule deleteFile_native_no_match)
    show "deleteFile b u h =
           (if startsWith u ''blob:'' then (Inr (), revokeObjectURL b u h, [RevokeObjectURL u])
            else (Inr (), h, []))"
      if "\<not> isNativePlatform b" using that by (rule deleteFile_nonnative)
  qed
qed

lemma no_match_passwd: "match_aurora_files ''file:///etc/passwd'' = None"
  by (simp add: startsWith_def)

lemma no_match_blob: "match_aurora_files ''blob:aurora/0'' = None"
  by (simp add: startsWith_def)

lemma match_stored:
  "match_aurora_files ''file:///data/aurora-files/videos/a.mp4'' = Some ''aurora-files/videos/a.mp4''"
  by (simp add: startsWith_def lineTerminator_def)

theorem deleteFile_never_fails_witness:
  "match_aurora_files ''file:///etc/passwd'' = None \<and> isNativePlatform (memfs True) \<and>
   deleteFile (memfs True) ''file:///etc/passwd'' stale_state = (Inr (), stale_state, []) \<and>
   match_aurora_files ''blob:aurora/0'' = None \<and> \<not> isNativePlatform (memfs False) \<and>
   deleteFile (memfs False) ''blob:aurora/0'' ([], 1) =
     (Inr (), ([], 1), [RevokeObjectURL ''blob:aurora/0'']) \<and>
   fst (deleteFile (memfs True) ''file:///data/aurora-files/videos/a.mp4''
     (fst (snd (deleteFile (memfs True) ''file:///data/aurora-files/videos/a.mp4'' stale_state)))) =
     Inr ()"
  using deleteFile_never_fails [of "memfs True" "''file:///etc/passwd''" stale_state]
    deleteFile_never_fails [of "memfs False" "''blob:aurora/0''" "([], 1)"]
    deleteFile_never_fails [of "memfs True" "''file:///data/aurora-files/videos/a.mp4''" stale_state]
    no_match_passwd no_match_blob
  by (simp add: startsWith_def) (simp add: memfs_def)

theorem deleteFile_blob_counterexample:
  "match_aurora_files ''blob:aurora/0'' = None \<and>
   deleteFile (memfs False) ''blob:aurora/0'' ([], 1) =
     (Inr (), ([], 1), [RevokeObjectURL ''blob:aurora/0'']) \<and>
   deleteFile (memfs False) ''blob:aurora/0'' ([], 1) \<noteq> (Inr (), ([], 1), [])"
  by (simp add: no_match_blob deleteFile_def isSupportedCapacitor_def memfs_def startsWith_def)

lemma mem_delete_a:
  "mem_deleteFile ''aurora-files/videos/a.mp4'' Data stale_state =
     (Inr (), ([(''/data/aurora-files/videos/gone.mp4'', [9, 9, 9])], 0))"
  by code_simp

lemma mem_delete_a_again:
  "mem_deleteFile ''aurora-files/videos/a.mp4'' Data
      ([(''/data/aurora-files/videos/gone.mp4'', [9, 9, 9])], 0) =
     (Inl (Rejected ''File does not exist''), ([(''/data/aurora-files/videos/gone.mp4'', [9, 9, 9])], 0))"
  by code_simp

lemma memfs_delete: "fsDeleteFile (memfs n) = mem_deleteFile"
  by (simp add: memfs_def)

lemma second_delete:
  "deleteFile (memfs True) ''file:///data/aurora-files/videos/a.mp4'' stale_state =
     (Inr (), ([(''/data/aurora-files/videos/gone.mp4'', [9, 9, 9])], 0),
      [FsDeleteFile ''aurora-files/videos/a.mp4'' Data]) \<and>
   deleteFile (memfs True) ''file:///data/aurora-files/videos/a.mp4''
      ([(''/data/aurora-files/videos/gone.mp4'', [9, 9, 9])], 0) =
     (Inr (), ([(''/data/aurora-files/videos/gone.mp4'', [9, 9, 9])], 0),
      [FsDeleteFile ''aurora-files/videos/a.mp4'' Data,
       ConsoleError ''Failed to delete file:'' (Rejected ''File does not exist'')])"
  by (simp only: deleteFile_def deleteFile_try_def isSupportedCapacitor_def memfs_native
        match_stored memfs_delete mem_delete_a mem_delete_a_again
        option.case prod.case sum.case not_True_eq_False if_False append.simps simp_thms)

subsection \<open>Storage statistics\<close>

lemma getNativeStorageStats_returns: "\<exists>s. fst (getNativeStorageStats b h) = Inr s"
  by (simp add: getNativeStorageStats_def split: prod.splits)

lemma stale_readdir_videos:
  "fsReaddir stale_host ''aurora-files/videos'' Data stale_state = (Inr [''a.mp4'', ''gone.mp4''], stale_state)"
  by (simp add: stale_host_def stale_state_def memfs_def mem_readdir_def root_def startsWith_def)

lemma stale_readdir_other:
  "c \<in> {''audio'', ''images'', ''documents''} \<Longrightarrow>
   fsReaddir stale_host (''aurora-files/'' @ c) Data stale_state =
     (Inl (Rejected ''Directory does not exist''), stale_state)"
  by (auto simp: stale_host_def stale_state_def memfs_def mem_readdir_def root_def startsWith_def)

lemma stale_stat_a:
  "fsStat stale_host ''aurora-files/videos/a.mp4'' Data stale_state = (Inr 5, stale_state)"
  by (simp add: stale_host_def stale_state_def memfs_def mem_stat_def root_def)

lemma stale_stat_gone:
  "fsStat stale_host ''aurora-files/videos/gone.mp4'' Data stale_state =
     (Inl (Rejected ''File does not exist''), stale_state)"
  by (simp add: stale_host_def)

text \<open>
  C4. Two entries are listed under \<open>aurora-files/videos\<close> and \<open>stat\<close> rejects one of
  them. \<open>getNativeStorageStats\<close> returns without an error and sums the size of the other
  entry, but counts both: \<open>totalCount\<close> grows by the length of the listing before any
  entry is looked at. \<open>getNativeStorageFiles\<close>, on the same host, leaves the rejected
  entry out.
\<close>

theorem getNativeStorageStats_counts_failed_entry:
  "getNativeStorageStats stale_host stale_state =
     (Inr \<lparr>stats_count = 2, stats_size = 5\<rparr>, stale_state,
      [FsReaddir ''aurora-files/videos'' Data,
       FsStat ''aurora-files/videos/a.mp4'' Data,
       FsStat ''aurora-files/videos/gone.mp4'' Data,
       FsReaddir ''aurora-files/audio'' Data,
       FsReaddir ''aurora-files/images'' Data,
       FsReaddir ''aurora-files/documents'' Data]) \<and>
   fst (getNativeStorageFiles stale_host stale_state) =
     Inr [\<lparr>entry_name = ''a.mp4'', entry_path = ''aurora-files/videos/a.mp4'',
           entry_category = ''videos'', entry_size = 5\<rparr>]"
proof -
  have n: "isSupportedCapacitor stale_host"
    by (simp add: isSupportedCapacitor_def stale_host_def memfs_def)
  have v: "fsReaddir stale_host (''aurora-files/'' @ ''videos'') Data stale_state =
      (Inr [''a.mp4'', ''gone.mp4''], stale_state)"
    using stale_readdir_videos by simp
  have a: "fsStat stale_host (''aurora-files/'' @ ''videos'' @ ''/'' @ ''a.mp4'') Data stale_state
      = (Inr 5, stale_state)"
    using stale_stat_a by simp
  have g: "fsStat stale_host (''aurora-files/'' @ ''videos'' @ ''/'' @ ''gone.mp4'') Data stale_state
      = (Inl (Rejected ''File does not exist''), stale_state)"
    using stale_stat_gone by simp
  have 1: "getNativeStorageStats stale_host stale_state =
     (Inr \<lparr>stats_count = 2, stats_size = 5\<rparr>, stale_state,
      [FsReaddir ''aurora-files/videos'' Data,
       FsStat ''aurora-files/videos/a.mp4'' Data,
       FsStat ''aurora-files/videos/gone.mp4'' Data,
       FsReaddir ''aurora-files/audio'' Data,
       FsReaddir ''aurora-files/images'' Data,
       FsReaddir ''aurora-files/documents'' Data])"
    using n stale_readdir_other [of "''audio''"] stale_readdir_other [of "''images''"]
      stale_readdir_other [of "''documents''"]
    by (simp add: getNativeStorageStats_def categories_def v a g Let_def del: append.simps)
  have 2: "fst (getNativeStorageFiles stale_host stale_state) =
     Inr [\<lparr>entry_name = ''a.mp4'', entry_path = ''aurora-files/videos/a.mp4'',
           entry_category = ''videos'', entry_size = 5\<rparr>]"
    using n stale_readdir_other [of "''audio''"] stale_readdir_other [of "''images''"]
      stale_readdir_other [of "''documents''"]
    by (simp add: getNativeStorageFiles_def categories_def v a g Let_def del: append.simps)
  from 1 2 show ?thesis by simp
qed

subsection \<open>Tier routing\<close>

text \<open>
  C8. For every \<open>fileSize\<close>, \<open>shouldUseNativeStorage(fileSize)\<close> is true if and only if
  the native capability is present and \<open>fileSize\<close> is at least 1 MiB
  (\<open>1 * 1024 * 1024 = 1048576\<close> bytes); so it is false for every size below the threshold
  even with the capability, and false for every size without it.
\<close>

theorem shouldUseNativeStorage_iff:
  "shouldUseNativeStorage b fileSize = (isNativePlatform b \<and> 1048576 \<le> fileSize)"
  by (simp add: shouldUseNativeStorage_def isSupportedCapacitor_def FILE_SIZE_THRESHOLD_def)

theorem shouldUseNativeStorage_iff_witness:
  "shouldUseNativeStorage (memfs True) 1048576 \<and>
   \<not> shouldUseNativeStorage (memfs True) 1048575 \<and>
   \<not> shouldUseNativeStorage (memfs False) 1048576"
  using shouldUseNativeStorage_iff [of "memfs True" 1048576]
        shouldUseNativeStorage_iff [of "memfs True" 1048575]
        shouldUseNativeStorage_iff [of "memfs False" 1048576]
  by (simp add: memfs_def)

subsection \<open>URL resolution\<close>

text \<open>
  C9. When the native capability is absent, \<open>convertFileSrc\<close> returns its argument
  unchanged, for every input string, and calls nothing.
\<close>

theorem convertFileSrc_identity:
  "\<not> isNativePlatform b \<Longrightarrow> convertFileSrc b x = (x, [])"
  by (simp add: convertFileSrc_def isSupportedCapacitor_def)

theorem convertFileSrc_identity_witness:
  "\<not> isNativePlatform (memfs False) \<and>
   convertFileSrc (memfs False) ''blob:aurora/0'' = (''blob:aurora/0'', [])"
proof -
  have h: "\<not> isNativePlatform (memfs False)" by (simp add: memfs_def)
  show ?thesis using h convertFileSrc_identity [OF h, of "''blob:aurora/0''"] by simp
qed


subsection \<open>Stored paths\<close>

lemma split_not_Nil: "split sep s \<noteq> []"
  by (induction s) (auto split: list.splits)

lemma split_sep_length: "sep \<in> set s \<Longrightarrow> tl (split sep s) \<noteq> []"
  by (induction s) (auto simp: split_not_Nil split: list.splits)

lemma takeWhile_no_sep:
  "sep \<notin> set xs \<Longrightarrow> takeWhile (\<lambda>c. c \<noteq> sep) (rev xs) = rev xs"
  by auto

lemma takeWhile_no_sep_snoc:
  "sep \<notin> set cs \<Longrightarrow> c \<noteq> sep \<Longrightarrow>
   takeWhile (\<lambda>c. c \<noteq> sep) (rev cs @ [c]) = rev cs @ [c]"
  by auto

lemma last_split: "last (split sep s) = rev (takeWhile (\<lambda>c. c \<noteq> sep) (rev s))"
proof (induction s)
  case Nil
  then show ?case by simp
next
  case (Cons c cs)
  show ?case
  proof (cases "c = sep")
    case True
    then show ?thesis
      using Cons by (simp add: split_not_Nil takeWhile_tail)
  next
    case False
    show ?thesis
    proof (cases "sep \<in> set cs")
      case True
      then obtain seg segs where s: "split sep cs = seg # segs" "segs \<noteq> []"
        using split_sep_length [OF True] by (cases "split sep cs") (auto simp: split_not_Nil)
      have "takeWhile (\<lambda>c. c \<noteq> sep) (rev cs @ [c]) = takeWhile (\<lambda>c. c \<noteq> sep) (rev cs)"
        using True by simp
      with Cons s False show ?thesis by simp
    next
      case no: False
      then have "split sep cs = [cs]" by (rule split_no_sep)
      then show ?thesis
        using False by (simp add: takeWhile_no_sep_snoc [OF no False])
    qed
  qed
qed

lemma pop_last: "xs \<noteq> [] \<Longrightarrow> pop xs = Some (last xs)"
  by (cases xs rule: rev_cases) (simp_all add: pop_def)

lemma pop_split: "pop (split (CHR ''.'') name) = Some (after_last_dot name)"
  by (simp add: pop_last split_not_Nil last_split after_last_dot_def)

















text \<open>
  For a name without a dot the text after the last dot is the whole name, so the
  fallback \<open>bin\<close> is not reached.
\<close>

lemma extension_undotted:
  "CHR ''.'' \<notin> set name \<Longrightarrow> name \<noteq> [] \<Longrightarrow>
   or_literal (pop (split (CHR ''.'') name)) ''bin'' = name"
  by (simp add: pop_split or_literal_def after_last_dot_def takeWhile_no_sep)











end
